theory Spec2Isabelle
  imports Complex_Main "HOL-Library.AList"
begin

section \<open>JavaScript values\<close>

text \<open>
  The documents handled by \<^verbatim>\<open>src/managers/storage.js\<close> are JSON-compatible values, to
  which \<^verbatim>\<open>set\<close> may add \<^verbatim>\<open>undefined\<close>. A value is a tree: an object is the list of its
  own properties in creation order; an array is the list of its elements (a hole reads as
  \<^verbatim>\<open>undefined\<close>) with the list of its own named properties. Property lookup walks the
  prototype chain, so the values that a lookup can hand out include the built-in
  prototypes and their members:
  \<^item> \<open>JProto p\<close> is the built-in prototype object \<open>p\<close> (\<^verbatim>\<open>Object.prototype\<close>,
    \<^verbatim>\<open>Array.prototype\<close>, ...), as the engine creates it and with no change made to it
    since;
  \<^item> \<open>JBuiltin p m\<close> is the function that the built-in prototype \<open>p\<close> holds under the
    name \<open>m\<close> (\<^verbatim>\<open>Object.prototype.toString\<close>, ...).

  An object literal and an object made by \<^verbatim>\<open>JSON.parse\<close> have \<^verbatim>\<open>Object.prototype\<close> as
  prototype, an array has \<^verbatim>\<open>Array.prototype\<close>. Documents are trees, as JSON parsing
  produces them: no object is reachable along two paths.

  Numbers enter the program only through \<^verbatim>\<open>typeof\<close>, truthiness and the length of an
  array, so a finite number is a rational and \<^verbatim>\<open>-0\<close> is identified with \<^verbatim>\<open>0\<close>.
\<close>

datatype jsnum = NaN | PosInfinity | NegInfinity | Finite rat

datatype proto =
    ObjectPrototype
  | ArrayPrototype
  | StringPrototype
  | NumberPrototype
  | BooleanPrototype

datatype jsval =
    JUndefined
  | JNull
  | JBool bool
  | JNum jsnum
  | JStr string
  | JObj "(string \<times> jsval) list"
  | JArr "jsval list" "(string \<times> jsval) list"
  | JProto proto
  | JBuiltin proto string

text \<open>
  What the program can throw. \<open>TypeError\<close> and \<open>Error\<close> are thrown by the module
  itself, with the message given. \<open>EngineTypeError\<close> is a \<^verbatim>\<open>TypeError\<close> that the engine
  throws (its message is the engine's): a property of \<^verbatim>\<open>null\<close> or \<^verbatim>\<open>undefined\<close> is read
  or written, the prototype of \<^verbatim>\<open>Object.prototype\<close> is to be changed, or a value cannot
  be converted to a number. \<open>Unsupported\<close> is no error of the program: it marks a step
  that a tree of values cannot express, namely a read or write of a property of a built-in
  function, a write that changes a built-in prototype, and the replacement of the
  prototype of an object or array (and a conversion that an engine leaves out). The run
  of the model stops there, and no theorem below treats it as behaviour of the program.
\<close>

datatype error =
    TypeError string
  | Error string
  | RangeError string
  | EngineTypeError
  | Unsupported

fun typeof :: "jsval \<Rightarrow> string" where
  "typeof JUndefined = ''undefined''"
| "typeof JNull = ''object''"
| "typeof (JBool b) = ''boolean''"
| "typeof (JNum n) = ''number''"
| "typeof (JStr s) = ''string''"
| "typeof (JObj ps) = ''object''"
| "typeof (JArr xs ps) = ''object''"
| "typeof (JProto p) = ''object''"
| "typeof (JBuiltin p m) = ''function''"

text \<open>The values that \<^verbatim>\<open>||\<close> lets through: everything but \<^verbatim>\<open>undefined\<close>, \<^verbatim>\<open>null\<close>,
  \<^verbatim>\<open>false\<close>, \<^verbatim>\<open>0\<close>, \<^verbatim>\<open>NaN\<close> and the empty string.\<close>

fun truthy :: "jsval \<Rightarrow> bool" where
  "truthy JUndefined = False"
| "truthy JNull = False"
| "truthy (JBool b) = b"
| "truthy (JNum n) = (n \<noteq> NaN \<and> n \<noteq> Finite 0)"
| "truthy (JStr s) = (s \<noteq> [])"
| "truthy (JObj ps) = True"
| "truthy (JArr xs ps) = True"
| "truthy (JProto p) = True"
| "truthy (JBuiltin p m) = True"

text \<open>The values of the language type Object, functions among them.\<close>

fun is_object :: "jsval \<Rightarrow> bool" where
  "is_object (JObj ps) = True"
| "is_object (JArr xs ps) = True"
| "is_object (JProto p) = True"
| "is_object (JBuiltin p m) = True"
| "is_object v = False"

subsection \<open>The engine\<close>

text \<open>
  Two things depend on the engine that runs the module and are parameters of the model:
  \<^item> \<open>members p\<close>: the names of the functions that the built-in prototype \<open>p\<close> holds as
    own properties (they vary with the version of the language). The accessor
    \<^verbatim>\<open>__proto__\<close> of \<^verbatim>\<open>Object.prototype\<close> and the \<^verbatim>\<open>length\<close> of \<^verbatim>\<open>Array.prototype\<close> and
    \<^verbatim>\<open>String.prototype\<close> are not functions and are written out below.
  \<^item> \<open>ToNumber v\<close>: what the conversion of a string or an object to a number gives: a
    number, or a \<^verbatim>\<open>TypeError\<close> of the engine. It is used by an assignment to the
    \<^verbatim>\<open>length\<close> of an array only. An engine given for the sake of an example may leave a
    conversion out (\<open>NotGiven\<close>); the run then stops as unsupported.
\<close>

datatype conversion = Number jsnum | Throws | NotGiven

record engine =
  members :: "proto \<Rightarrow> string list"
  ToNumber :: "jsval \<Rightarrow> conversion"

subsection \<open>Array indices\<close>

text \<open>A property key is an array index when it is the canonical decimal form of an
  integer below \<open>2^32 - 1\<close>.\<close>

definition is_digit :: "char \<Rightarrow> bool" where
  "is_digit c = (c \<in> set ''0123456789'')"

definition digits_value :: "string \<Rightarrow> nat" where
  "digits_value s = foldl (\<lambda>n c. 10 * n + (of_char c - 48)) 0 s"

definition array_index :: "string \<Rightarrow> nat option" where
  "array_index k =
     (case k of
        [] \<Rightarrow> None
      | c # cs \<Rightarrow>
          if list_all is_digit k \<and> (c = CHR ''0'' \<longrightarrow> cs = []) \<and> digits_value k < 2 ^ 32 - 1
          then Some (digits_value k) else None)"

subsection \<open>Reading a property\<close>

text \<open>
  What a value whose prototype is the built-in \<open>p\<close> finds under \<open>k\<close> when it has no own
  property of that name. The name \<^verbatim>\<open>__proto__\<close> is the accessor of \<^verbatim>\<open>Object.prototype\<close>,
  the end of every chain, and its getter returns the prototype of the value. Any other
  name is looked up among the functions of \<open>p\<close>, then among those of
  \<^verbatim>\<open>Object.prototype\<close>; otherwise the result is \<^verbatim>\<open>undefined\<close>.
\<close>

definition inherited :: "engine \<Rightarrow> proto \<Rightarrow> string \<Rightarrow> jsval" where
  "inherited E p k =
     (if k = ''__proto__'' then JProto p
      else if p \<noteq> ObjectPrototype \<and> k \<in> set (members E p) then JBuiltin p k
      else if k \<in> set (members E ObjectPrototype) then JBuiltin ObjectPrototype k
      else JUndefined)"

text \<open>
  What the built-in prototype \<open>p\<close> itself gives under \<open>k\<close>. The prototype of
  \<^verbatim>\<open>Object.prototype\<close> is \<^verbatim>\<open>null\<close>, that of the others is \<^verbatim>\<open>Object.prototype\<close>;
  \<^verbatim>\<open>Array.prototype\<close> is an empty array and \<^verbatim>\<open>String.prototype\<close> a wrapper of the empty
  string, so both have the \<^verbatim>\<open>length\<close> 0.
\<close>

definition proto_prop :: "engine \<Rightarrow> proto \<Rightarrow> string \<Rightarrow> jsval" where
  "proto_prop E p k =
     (if p = ObjectPrototype then
        (if k = ''__proto__'' then JNull
         else if k \<in> set (members E ObjectPrototype) then JBuiltin ObjectPrototype k
         else JUndefined)
      else if k = ''__proto__'' then JProto ObjectPrototype
      else if k = ''length'' \<and> (p = ArrayPrototype \<or> p = StringPrototype) then JNum (Finite 0)
      else if k \<in> set (members E p) then JBuiltin p k
      else if k \<in> set (members E ObjectPrototype) then JBuiltin ObjectPrototype k
      else JUndefined)"

text \<open>\<^verbatim>\<open>o[k]\<close> as an expression: the own property, else the inherited one. A primitive is
  read through its wrapper.\<close>

fun get_prop :: "engine \<Rightarrow> jsval \<Rightarrow> string \<Rightarrow> error + jsval" where
  "get_prop E JUndefined k = Inl EngineTypeError"
| "get_prop E JNull k = Inl EngineTypeError"
| "get_prop E (JBool b) k = Inr (inherited E BooleanPrototype k)"
| "get_prop E (JNum n) k = Inr (inherited E NumberPrototype k)"
| "get_prop E (JStr s) k =
     (case array_index k of
        Some i \<Rightarrow> Inr (if i < length s then JStr [s ! i] else JUndefined)
      | None \<Rightarrow>
          Inr (if k = ''length'' then JNum (Finite (of_nat (length s)))
               else inherited E StringPrototype k))"
| "get_prop E (JObj ps) k =
     Inr (case map_of ps k of Some v \<Rightarrow> v | None \<Rightarrow> inherited E ObjectPrototype k)"
| "get_prop E (JArr xs ps) k =
     (case array_index k of
        Some i \<Rightarrow> Inr (if i < length xs then xs ! i else JUndefined)
      | None \<Rightarrow>
          Inr (if k = ''length'' then JNum (Finite (of_nat (length xs)))
               else (case map_of ps k of Some v \<Rightarrow> v | None \<Rightarrow> inherited E ArrayPrototype k)))"
| "get_prop E (JProto p) k = Inr (proto_prop E p k)"
| "get_prop E (JBuiltin p m) k = Inl Unsupported"

subsection \<open>Writing a property\<close>

text \<open>The number that an assignment to \<^verbatim>\<open>length\<close> converts its right-hand side to, and
  the length that the number stands for, if any.\<close>

fun to_number :: "engine \<Rightarrow> jsval \<Rightarrow> conversion" where
  "to_number E JUndefined = Number NaN"
| "to_number E JNull = Number (Finite 0)"
| "to_number E (JBool b) = Number (Finite (if b then 1 else 0))"
| "to_number E (JNum n) = Number n"
| "to_number E v = ToNumber E v"

definition valid_length :: "jsnum \<Rightarrow> nat option" where
  "valid_length n =
     (case n of
        Finite q \<Rightarrow>
          if 0 \<le> q \<and> q < 2 ^ 32 \<and> q = of_int \<lfloor>q\<rfloor> then Some (nat \<lfloor>q\<rfloor>) else None
      | _ \<Rightarrow> None)"

definition resize :: "nat \<Rightarrow> jsval list \<Rightarrow> jsval list" where
  "resize n xs = take n xs @ replicate (n - length xs) JUndefined"

text \<open>
  \<^verbatim>\<open>o.__proto__ = v\<close> where \<^verbatim>\<open>o\<close> is an object or array without an own property of that
  name: the setter inherited from \<^verbatim>\<open>Object.prototype\<close> runs. It ignores a \<open>v\<close> that is
  neither an object nor \<^verbatim>\<open>null\<close>, and changes nothing when \<open>v\<close> is the prototype that
  \<^verbatim>\<open>o\<close> has; any other \<open>v\<close> replaces the prototype.
\<close>

definition set_prototype :: "jsval \<Rightarrow> jsval \<Rightarrow> jsval \<Rightarrow> error + jsval" where
  "set_prototype cur current v =
     (if \<not> is_object v \<and> v \<noteq> JNull then Inr cur
      else if v = current then Inr cur
      else Inl Unsupported)"

text \<open>
  \<^verbatim>\<open>o[k] = v\<close> as a statement of sloppy-mode code (the module has no \<^verbatim>\<open>'use strict'\<close>
  and \<^verbatim>\<open>set\<close> is outside the classes): the result is \<^verbatim>\<open>o\<close> after the assignment. On a
  primitive the assignment is ignored without an error. On an object or array it updates
  the own property or creates one (every function of a built-in prototype is writable, so
  an inherited name is shadowed), except for \<^verbatim>\<open>__proto__\<close>, an index or the \<^verbatim>\<open>length\<close> of
  an array. \<^verbatim>\<open>Object.prototype\<close> refuses a new prototype.
\<close>

fun put_prop :: "engine \<Rightarrow> jsval \<Rightarrow> string \<Rightarrow> jsval \<Rightarrow> error + jsval" where
  "put_prop E JUndefined k v = Inl EngineTypeError"
| "put_prop E JNull k v = Inl EngineTypeError"
| "put_prop E (JBool b) k v = Inr (JBool b)"
| "put_prop E (JNum n) k v = Inr (JNum n)"
| "put_prop E (JStr s) k v = Inr (JStr s)"
| "put_prop E (JObj ps) k v =
     (if k = ''__proto__'' \<and> map_of ps k = None
      then set_prototype (JObj ps) (JProto ObjectPrototype) v
      else Inr (JObj (AList.update k v ps)))"
| "put_prop E (JArr xs ps) k v =
     (case array_index k of
        Some i \<Rightarrow>
          Inr (JArr (if i < length xs then xs[i := v]
                     else xs @ replicate (i - length xs) JUndefined @ [v]) ps)
      | None \<Rightarrow>
          if k = ''length'' then
            (case to_number E v of
               Throws \<Rightarrow> Inl EngineTypeError
             | NotGiven \<Rightarrow> Inl Unsupported
             | Number n \<Rightarrow>
                 (case valid_length n of
                    None \<Rightarrow> Inl (RangeError ''Invalid array length'')
                  | Some m \<Rightarrow> Inr (JArr (resize m xs) ps)))
          else if k = ''__proto__'' \<and> map_of ps k = None
          then set_prototype (JArr xs ps) (JProto ArrayPrototype) v
          else Inr (JArr xs (AList.update k v ps)))"
| "put_prop E (JProto p) k v =
     (if k = ''__proto__'' then
        (if p = ObjectPrototype then
           (if is_object v then Inl EngineTypeError else Inr (JProto p))
         else set_prototype (JProto p) (JProto ObjectPrototype) v)
      else Inl Unsupported)"
| "put_prop E (JBuiltin p m) k v = Inl Unsupported"

text \<open>
  The object that \<^verbatim>\<open>o[k]\<close> refers to has been changed in place to \<open>c\<close>: what \<^verbatim>\<open>o\<close> is
  afterwards. Only an own property of an object or array and an element of an array are
  references into \<^verbatim>\<open>o\<close>; what a primitive hands out, and what is inherited, is no part of
  it.
\<close>

fun replace_child :: "jsval \<Rightarrow> string \<Rightarrow> jsval \<Rightarrow> jsval" where
  "replace_child (JObj ps) k c =
     (if map_of ps k = None then JObj ps else JObj (AList.update k c ps))"
| "replace_child (JArr xs ps) k c =
     (case array_index k of
        Some i \<Rightarrow> if i < length xs then JArr (xs[i := c]) ps else JArr xs ps
      | None \<Rightarrow>
          if k = ''length'' \<or> map_of ps k = None then JArr xs ps
          else JArr xs (AList.update k c ps))"
| "replace_child v k c = v"

section \<open>The path accessors\<close>

text \<open>\<^verbatim>\<open>keyPath.split(/\./g)\<close>: the segments between the dots, never an empty list.\<close>

fun split_dots :: "string \<Rightarrow> string list" where
  "split_dots [] = [[]]"
| "split_dots (c # cs) =
     (if c = CHR ''.'' then [] # split_dots cs
      else (case split_dots cs of [] \<Rightarrow> [[c]] | s # ss \<Rightarrow> (c # s) # ss))"

text \<open>
  \<^verbatim>\<open>
  function set(object, keyPath, value) {
      if (typeof object !== 'object') { throw new TypeError('object must be an object'); }
      if (typeof keyPath !== 'string') { throw new TypeError('keyPath must be a string'); }
      const split = keyPath.split(/\./g);
      let current = object;
      for (let i = 0; i < split.length - 1; i++) {
          const key = split[i];
          current = current[key] || (current[key] = {});
      }
      current[split[split.length - 1]] = value;
  }
  \<close>
  \<open>set_loop\<close> is the loop over the segments before the last, followed by the final
  assignment, run on \<^verbatim>\<open>current\<close>. The result is what was thrown, if anything, and
  \<^verbatim>\<open>current\<close> as the run leaves it: \<^verbatim>\<open>current = current[key]\<close> goes down by reference, so
  what the rest of the run does to the child is seen in the parent. The value of
  \<^verbatim>\<open>current[key] = {}\<close> is the new object, also where the assignment is ignored.
\<close>

fun set_loop :: "engine \<Rightarrow> jsval \<Rightarrow> string list \<Rightarrow> string \<Rightarrow> jsval \<Rightarrow> error option \<times> jsval" where
  "set_loop E current [] final v =
     (case put_prop E current final v of
        Inl e \<Rightarrow> (Some e, current)
      | Inr current' \<Rightarrow> (None, current'))"
| "set_loop E current (key # keys) final v =
     (case get_prop E current key of
        Inl e \<Rightarrow> (Some e, current)
      | Inr next \<Rightarrow>
          if truthy next then
            (case set_loop E next keys final v of
               (r, next') \<Rightarrow> (r, replace_child current key next'))
          else
            (case put_prop E current key (JObj []) of
               Inl e \<Rightarrow> (Some e, current)
             | Inr current' \<Rightarrow>
                 (case set_loop E (JObj []) keys final v of
                    (r, next') \<Rightarrow> (r, replace_child current' key next'))))"

definition set_path :: "engine \<Rightarrow> jsval \<Rightarrow> jsval \<Rightarrow> jsval \<Rightarrow> error option \<times> jsval" where
  "set_path E object keyPath v =
     (if typeof object \<noteq> ''object'' then (Some (TypeError ''object must be an object''), object)
      else
        (case keyPath of
           JStr p \<Rightarrow> set_loop E object (butlast (split_dots p)) (last (split_dots p)) v
         | _ \<Rightarrow> (Some (TypeError ''keyPath must be a string''), object)))"

text \<open>
  \<^verbatim>\<open>
  function get(object, keyPath) {
      if (typeof object !== 'object') { throw new TypeError('object must be an object'); }
      if (typeof keyPath !== 'string') { throw new TypeError('keyPath must be a string'); }
      const split = keyPath.split(/\./g);
      let current = object;
      let path = '';
      for (let i = 0; i < split.length - 1; i++) {
          const key = split[i];
          const next = current[key];
          path += key;
          if (typeof next !== 'object') {
              throw new TypeError(`value at ${path} was not an object`);
          }
          current = next;
      }
      return current[split[split.length - 1]];
  }
  \<close>
  \<open>get_loop\<close> is the loop with the final read; \<open>path\<close> is the text accumulated for the
  error message. As in \<open>set_loop\<close>, \<^verbatim>\<open>current = next\<close> walks down by reference, so
  the result carries \<^verbatim>\<open>current\<close> as the run leaves it.
\<close>

fun get_loop ::
  "engine \<Rightarrow> jsval \<Rightarrow> string \<Rightarrow> string list \<Rightarrow> string \<Rightarrow> (error + jsval) \<times> jsval" where
  "get_loop E current path [] final = (get_prop E current final, current)"
| "get_loop E current path (key # keys) final =
     (case get_prop E current key of
        Inl e \<Rightarrow> (Inl e, current)
      | Inr next \<Rightarrow>
          if typeof next \<noteq> ''object''
          then (Inl (TypeError (''value at '' @ (path @ key) @ '' was not an object'')), current)
          else
            (case get_loop E next (path @ key) keys final of
               (r, next') \<Rightarrow> (r, replace_child current key next')))"

definition get_path :: "engine \<Rightarrow> jsval \<Rightarrow> jsval \<Rightarrow> (error + jsval) \<times> jsval" where
  "get_path E object keyPath =
     (if typeof object \<noteq> ''object'' then (Inl (TypeError ''object must be an object''), object)
      else
        (case keyPath of
           JStr p \<Rightarrow> get_loop E object [] (butlast (split_dots p)) (last (split_dots p))
         | _ \<Rightarrow> (Inl (TypeError ''keyPath must be a string''), object)))"

section \<open>StorageAdapter\<close>

text \<open>
  The file system is reached through three functions of \<^verbatim>\<open>fs-extra\<close>, and the storage
  directory through \<^verbatim>\<open>path.resolve(global.settings.configsFolder, _)\<close>. They are not
  part of the repository and are parameters of the model: \<open>'fs\<close> is the state of the
  file system, \<open>readJSONSync\<close> is \<open>None\<close> where the call throws, and \<open>writeJSONSync\<close>
  returns whether the call succeeded and the file system it leaves.
\<close>

record 'fs env =
  existsSync :: "'fs \<Rightarrow> string \<Rightarrow> bool"
  readJSONSync :: "'fs \<Rightarrow> string \<Rightarrow> jsval option"
  writeJSONSync :: "'fs \<Rightarrow> string \<Rightarrow> jsval \<Rightarrow> bool \<times> 'fs"
  resolve :: "string \<Rightarrow> string"

text \<open>The world outside the program: the file system, the lines printed by
  \<^verbatim>\<open>console.error\<close>, and the calls of \<^verbatim>\<open>writeJSONSync\<close> made so far, with their
  arguments.\<close>

record 'fs world =
  files :: 'fs
  console :: "string list"
  writes :: "(string \<times> jsval) list"

text \<open>An instance; \<open>data = JNull\<close> is \<^verbatim>\<open>this.data === null\<close>. The methods:
  \<^verbatim>\<open>
  load() {
      if (!fse.existsSync(this.storageFile)) { this.data = {}; return; }
      try { this.data = fse.readJSONSync(this.storageFile); }
      catch (error) { console.error(`Failed to load ${this.storageFile}!`, error); this.data = null; }
  }
  save() {
      if (this.data === null) { throw new Error('Data has yet to be loaded'); }
      try { fse.writeJSONSync(this.storageFile, this.data); }
      catch (error) { console.error(`Failed to save data to ${this.storageFile}!`, error); }
  }
  get(key) {
      if (this.data === null) { throw new Error('Data has yet to be loaded'); }
      if (typeof key !== 'string') { throw new TypeError('key must be a string'); }
      return get(this.data, key);
  }
  set(key, value) {
      if (this.data === null) { throw new Error('Data has yet to be loaded'); }
      if (typeof key !== 'string') { throw new TypeError('key must be a string'); }
      const oldValue = this.get(key);
      set(this.data, key, value);
      return oldValue;
  }
  \<close>
  The constructor stores the location, sets \<^verbatim>\<open>this.data = null\<close> and calls \<^verbatim>\<open>load()\<close>.\<close>

record StorageAdapter =
  storageFile :: string
  data :: jsval

definition StorageAdapter_load ::
  "'fs env \<Rightarrow> 'fs world \<Rightarrow> StorageAdapter \<Rightarrow> 'fs world \<times> StorageAdapter" where
  "StorageAdapter_load env w this =
     (if \<not> existsSync env (files w) (storageFile this) then (w, this\<lparr>data := JObj []\<rparr>)
      else
        (case readJSONSync env (files w) (storageFile this) of
           Some v \<Rightarrow> (w, this\<lparr>data := v\<rparr>)
         | None \<Rightarrow>
             (w\<lparr>console := console w @ [''Failed to load '' @ storageFile this @ ''!'']\<rparr>,
              this\<lparr>data := JNull\<rparr>)))"

definition new_StorageAdapter ::
  "'fs env \<Rightarrow> 'fs world \<Rightarrow> string \<Rightarrow> 'fs world \<times> StorageAdapter" where
  "new_StorageAdapter env w file =
     StorageAdapter_load env w \<lparr>storageFile = file, data = JNull\<rparr>"

definition StorageAdapter_save ::
  "'fs env \<Rightarrow> 'fs world \<Rightarrow> StorageAdapter \<Rightarrow> error option \<times> 'fs world" where
  "StorageAdapter_save env w this =
     (if data this = JNull then (Some (Error ''Data has yet to be loaded''), w)
      else
        (case writeJSONSync env (files w) (storageFile this) (data this) of
           (ok, fs') \<Rightarrow>
             (None,
              w\<lparr>files := fs',
                writes := writes w @ [(storageFile this, data this)],
                console :=
                  (if ok then console w
                   else console w @ [''Failed to save data to '' @ storageFile this @ ''!''])\<rparr>)))"

definition StorageAdapter_get ::
  "engine \<Rightarrow> StorageAdapter \<Rightarrow> jsval \<Rightarrow> (error + jsval) \<times> StorageAdapter" where
  "StorageAdapter_get E this key =
     (if data this = JNull then (Inl (Error ''Data has yet to be loaded''), this)
      else if typeof key \<noteq> ''string'' then (Inl (TypeError ''key must be a string''), this)
      else (case get_path E (data this) key of (r, d) \<Rightarrow> (r, this\<lparr>data := d\<rparr>)))"

definition StorageAdapter_set ::
  "engine \<Rightarrow> StorageAdapter \<Rightarrow> jsval \<Rightarrow> jsval \<Rightarrow> (error + jsval) \<times> StorageAdapter" where
  "StorageAdapter_set E this key v =
     (if data this = JNull then (Inl (Error ''Data has yet to be loaded''), this)
      else if typeof key \<noteq> ''string'' then (Inl (TypeError ''key must be a string''), this)
      else
        (case StorageAdapter_get E this key of
           (Inl e, this') \<Rightarrow> (Inl e, this')
         | (Inr oldValue, this') \<Rightarrow>
             (case set_path E (data this') key v of
                (Some e, d) \<Rightarrow> (Inl e, this'\<lparr>data := d\<rparr>)
              | (None, d) \<Rightarrow> (Inr oldValue, this'\<lparr>data := d\<rparr>))))"

section \<open>Storage\<close>

text \<open>
  \<^verbatim>\<open>
  constructor() {
      const cache = this.cache = {};
      const factory = function (storageFile) {
          let realPath = path.resolve(global.settings.configsFolder, storageFile);
          if (!realPath.endsWith('.json')) { realPath += '.json'; }
          return cache[storageFile] || (cache[storageFile] = new StorageAdapter(realPath));
      };
      ...
  }
  saveAll() {
      for (const key in this.cache) { this.cache[key].save(); }
  }
  \<close>
  The instances created so far live in a store, and a reference to one is its position
  there. \<open>cache\<close> is \<^verbatim>\<open>this.cache\<close>: the own properties of the object, in creation
  order, each holding a reference. The cache is an object literal, so
  \<^verbatim>\<open>cache[storageFile]\<close> finds what \<^verbatim>\<open>Object.prototype\<close> holds under a name that is no
  own property; the factory then returns that value, which is no instance.
\<close>

record Storage =
  adapters :: "StorageAdapter list"
  cache :: "(string \<times> nat) list"

text \<open>What the factory returns: a reference to an instance, or a value of the engine.\<close>

datatype handle = Instance nat | Builtin jsval

text \<open>\<^verbatim>\<open>new Storage()\<close>: an empty cache; no instance exists yet.\<close>

definition new_Storage :: Storage where
  "new_Storage = \<lparr>adapters = [], cache = []\<rparr>"

definition endsWith :: "string \<Rightarrow> string \<Rightarrow> bool" where
  "endsWith s suffix = (length suffix \<le> length s \<and> drop (length s - length suffix) s = suffix)"

definition factory ::
  "engine \<Rightarrow> 'fs env \<Rightarrow> 'fs world \<times> Storage \<Rightarrow> string \<Rightarrow> handle \<times> 'fs world \<times> Storage" where
  "factory E env st name =
     (case st of
        (w, this) \<Rightarrow>
          (let realPath = resolve env name;
               realPath = (if \<not> endsWith realPath ''.json'' then realPath @ ''.json'' else realPath)
           in case map_of (cache this) name of
                Some r \<Rightarrow> (Instance r, w, this)
              | None \<Rightarrow>
                  if truthy (inherited E ObjectPrototype name)
                  then (Builtin (inherited E ObjectPrototype name), w, this)
                  else
                    (case new_StorageAdapter env w realPath of
                       (w', a) \<Rightarrow>
                         (Instance (length (adapters this)), w',
                          this\<lparr>adapters := adapters this @ [a],
                               cache := cache this @ [(name, length (adapters this))]\<rparr>))))"

text \<open>
  The order in which \<^verbatim>\<open>for (const key in this.cache)\<close> visits the keys: the keys that
  are array indices first, in ascending numeric order, then the others in creation order
  (no property of \<^verbatim>\<open>Object.prototype\<close> is enumerable). Each key visited is a key of the
  cache and holds a reference to an instance; the loop of the model raises where that is
  not so.
\<close>

definition for_in_keys :: "(string \<times> 'a) list \<Rightarrow> string list" where
  "for_in_keys ps =
     sort_key digits_value (filter (\<lambda>k. array_index k \<noteq> None) (map fst ps))
     @ filter (\<lambda>k. array_index k = None) (map fst ps)"

fun saveAll_loop ::
  "'fs env \<Rightarrow> 'fs world \<Rightarrow> Storage \<Rightarrow> string list \<Rightarrow> error option \<times> 'fs world" where
  "saveAll_loop env w this [] = (None, w)"
| "saveAll_loop env w this (key # keys) =
     (case map_of (cache this) key of
        None \<Rightarrow> (Some EngineTypeError, w)
      | Some r \<Rightarrow>
          if r < length (adapters this) then
            (case StorageAdapter_save env w (adapters this ! r) of
               (Some e, w') \<Rightarrow> (Some e, w')
             | (None, w') \<Rightarrow> saveAll_loop env w' this keys)
          else (Some EngineTypeError, w))"

definition saveAll :: "'fs env \<Rightarrow> 'fs world \<times> Storage \<Rightarrow> error option \<times> 'fs world" where
  "saveAll env st = (case st of (w, this) \<Rightarrow> saveAll_loop env w this (for_in_keys (cache this)))"

section \<open>Notions of the specification\<close>

text \<open>A mapping is an object of the document; a container is a mapping or an ordered
  sequence; a primitive is a boolean, a number or a string.\<close>

fun is_mapping :: "jsval \<Rightarrow> bool" where
  "is_mapping (JObj ps) = True"
| "is_mapping v = False"

fun is_container :: "jsval \<Rightarrow> bool" where
  "is_container (JObj ps) = True"
| "is_container (JArr xs ps) = True"
| "is_container v = False"

fun is_primitive :: "jsval \<Rightarrow> bool" where
  "is_primitive (JBool b) = True"
| "is_primitive (JNum n) = True"
| "is_primitive (JStr s) = True"
| "is_primitive v = False"

text \<open>The values that the walk of \<open>get\<close> goes through: those whose \<^verbatim>\<open>typeof\<close> is
  \<^verbatim>\<open>'object'\<close>, \<^verbatim>\<open>null\<close> apart. They are the containers and the built-in prototypes.\<close>

fun walkable :: "jsval \<Rightarrow> bool" where
  "walkable (JObj ps) = True"
| "walkable (JArr xs ps) = True"
| "walkable (JProto p) = True"
| "walkable v = False"

text \<open>The names that some value inherits from a built-in prototype.\<close>

definition inherited_name :: "engine \<Rightarrow> string \<Rightarrow> bool" where
  "inherited_name E k =
     (k = ''__proto__'' \<or>
      k \<in> set (members E ObjectPrototype) \<or> k \<in> set (members E ArrayPrototype) \<or>
      k \<in> set (members E StringPrototype) \<or> k \<in> set (members E NumberPrototype) \<or>
      k \<in> set (members E BooleanPrototype))"

text \<open>What a list of segments resolves to from a value: the result of reading them one
  after the other, \<open>None\<close> when one of them cannot be read.\<close>

fun resolve_path :: "engine \<Rightarrow> jsval \<Rightarrow> string list \<Rightarrow> jsval option" where
  "resolve_path E v [] = Some v"
| "resolve_path E v (k # ks) =
     (case get_prop E v k of Inl e \<Rightarrow> None | Inr next \<Rightarrow> resolve_path E next ks)"

text \<open>Every segment of the list resolves to a value that \<open>get\<close> walks through.\<close>

fun walks :: "engine \<Rightarrow> jsval \<Rightarrow> string list \<Rightarrow> bool" where
  "walks E v [] = True"
| "walks E v (k # ks) =
     (case get_prop E v k of Inl e \<Rightarrow> False | Inr next \<Rightarrow> walkable next \<and> walks E next ks)"

text \<open>Every segment of the list resolves to a container.\<close>

fun descends :: "engine \<Rightarrow> jsval \<Rightarrow> string list \<Rightarrow> bool" where
  "descends E v [] = True"
| "descends E v (k # ks) =
     (case get_prop E v k of Inl e \<Rightarrow> False | Inr next \<Rightarrow> is_container next \<and> descends E next ks)"

text \<open>
  As the write goes down the list, every segment is missing or falsy, and is then replaced
  by an empty mapping, or holds a mapping. (A name that the mapping inherits holds a
  built-in function or prototype: a truthy value that is no mapping.)
\<close>

fun vivifiable :: "engine \<Rightarrow> jsval \<Rightarrow> string list \<Rightarrow> bool" where
  "vivifiable E v [] = True"
| "vivifiable E v (k # ks) =
     (case get_prop E v k of
        Inl e \<Rightarrow> False
      | Inr next \<Rightarrow>
          if truthy next then is_mapping next \<and> vivifiable E next ks
          else vivifiable E (JObj []) ks)"

text \<open>The write of the specification on the properties of a mapping: the write descends
  into a segment that holds a mapping; a segment that is missing or falsy gets an empty
  mapping and the write descends into it; and the value is assigned under the final
  segment. (No falsy value is a mapping, so one case distinction does for both.)\<close>

fun vivify_assign ::
  "(string \<times> jsval) list \<Rightarrow> string list \<Rightarrow> string \<Rightarrow> jsval \<Rightarrow> (string \<times> jsval) list" where
  "vivify_assign ps [] final v = AList.update final v ps"
| "vivify_assign ps (k # ks) final v =
     AList.update k
       (JObj (vivify_assign (case map_of ps k of Some (JObj qs) \<Rightarrow> qs | _ \<Rightarrow> []) ks final v)) ps"

text \<open>A number that is a length: an integer from \<open>0\<close> to \<open>2^32 - 1\<close>.\<close>

fun is_length :: "jsval \<Rightarrow> bool" where
  "is_length (JNum n) = (valid_length n \<noteq> None)"
| "is_length v = False"

text \<open>
  The assignment of \<open>v\<close> under the key \<open>k\<close> of a container stores \<open>v\<close>, so that a read
  of the key gives it back. So it is for every key of a mapping and of a sequence, with
  two exceptions: the \<^verbatim>\<open>length\<close> of a sequence holds nothing but a length; and
  \<^verbatim>\<open>__proto__\<close>, where the container has no own property of that name, is the accessor
  of the prototype, whose value is the prototype of the container.
\<close>

fun stores :: "jsval \<Rightarrow> string \<Rightarrow> jsval \<Rightarrow> bool" where
  "stores (JObj ps) k v =
     (if k = ''__proto__'' \<and> map_of ps k = None then v = JProto ObjectPrototype else True)"
| "stores (JArr xs ps) k v =
     (if array_index k \<noteq> None then True
      else if k = ''length'' then is_length v
      else if k = ''__proto__'' \<and> map_of ps k = None then v = JProto ArrayPrototype
      else True)"
| "stores c k v = False"

text \<open>Segments joined by dots, the inverse of the split.\<close>

fun join_dots :: "string list \<Rightarrow> string" where
  "join_dots [] = []"
| "join_dots [s] = s"
| "join_dots (s # t # ss) = s @ CHR ''.'' # join_dots (t # ss)"

text \<open>The state after a series of calls of the factory, one for each name.\<close>

fun factory_all ::
  "engine \<Rightarrow> 'fs env \<Rightarrow> 'fs world \<times> Storage \<Rightarrow> string list \<Rightarrow> 'fs world \<times> Storage" where
  "factory_all E env st [] = st"
| "factory_all E env st (name # names) = factory_all E env (snd (factory E env st name)) names"

text \<open>The instances that the keys of a cache refer to, in the order of the keys.\<close>

fun cached :: "Storage \<Rightarrow> string list \<Rightarrow> StorageAdapter list" where
  "cached this [] = []"
| "cached this (key # keys) =
     (case map_of (cache this) key of
        None \<Rightarrow> cached this keys
      | Some r \<Rightarrow> (if r < length (adapters this) then [adapters this ! r] else []) @ cached this keys)"

text \<open>The lines that the writes of a list of instances print, one after the other from a
  file system: one line for each write that fails.\<close>

fun failures :: "'fs env \<Rightarrow> 'fs \<Rightarrow> StorageAdapter list \<Rightarrow> string list" where
  "failures env fs [] = []"
| "failures env fs (a # as) =
     (if fst (writeJSONSync env fs (storageFile a) (data a)) then []
      else [''Failed to save data to '' @ storageFile a @ ''!''])
     @ failures env (snd (writeJSONSync env fs (storageFile a) (data a))) as"

section \<open>An engine and a file system to run the model on\<close>

text \<open>
  The functions of the built-in prototypes of Node.js 20. Of the conversions to a number
  the simple ones are given: the empty string is \<^verbatim>\<open>0\<close> and a string of decimal digits is
  its number; an object with neither \<^verbatim>\<open>valueOf\<close> nor \<^verbatim>\<open>toString\<close> of its own converts by
  way of the text \<^verbatim>\<open>[object Object]\<close> to \<^verbatim>\<open>NaN\<close>; an empty array without named properties
  by way of the empty text to \<^verbatim>\<open>0\<close>.
\<close>

definition node :: engine where
  "node =
     \<lparr>members = (\<lambda>p. case p of
        ObjectPrototype \<Rightarrow>
          [''constructor'', ''__defineGetter__'', ''__defineSetter__'', ''hasOwnProperty'',
           ''__lookupGetter__'', ''__lookupSetter__'', ''isPrototypeOf'',
           ''propertyIsEnumerable'', ''toString'', ''valueOf'', ''toLocaleString'']
      | ArrayPrototype \<Rightarrow>
          [''constructor'', ''at'', ''concat'', ''copyWithin'', ''fill'', ''find'',
           ''findIndex'', ''findLast'', ''findLastIndex'', ''lastIndexOf'', ''pop'', ''push'',
           ''reverse'', ''shift'', ''unshift'', ''slice'', ''sort'', ''splice'', ''includes'',
           ''indexOf'', ''join'', ''keys'', ''entries'', ''values'', ''forEach'', ''filter'',
           ''flat'', ''flatMap'', ''map'', ''every'', ''some'', ''reduce'', ''reduceRight'',
           ''toLocaleString'', ''toString'', ''toReversed'', ''toSorted'', ''toSpliced'',
           ''with'']
      | StringPrototype \<Rightarrow>
          [''constructor'', ''anchor'', ''at'', ''big'', ''blink'', ''bold'', ''charAt'',
           ''charCodeAt'', ''codePointAt'', ''concat'', ''endsWith'', ''fontcolor'',
           ''fontsize'', ''fixed'', ''includes'', ''indexOf'', ''isWellFormed'', ''italics'',
           ''lastIndexOf'', ''link'', ''localeCompare'', ''match'', ''matchAll'',
           ''normalize'', ''padEnd'', ''padStart'', ''repeat'', ''replace'', ''replaceAll'',
           ''search'', ''slice'', ''small'', ''split'', ''strike'', ''sub'', ''substr'',
           ''substring'', ''sup'', ''startsWith'', ''toString'', ''toWellFormed'', ''trim'',
           ''trimStart'', ''trimLeft'', ''trimEnd'', ''trimRight'', ''toLocaleLowerCase'',
           ''toLocaleUpperCase'', ''toLowerCase'', ''toUpperCase'', ''valueOf'']
      | NumberPrototype \<Rightarrow>
          [''constructor'', ''toExponential'', ''toFixed'', ''toPrecision'', ''toString'',
           ''valueOf'', ''toLocaleString'']
      | BooleanPrototype \<Rightarrow> [''constructor'', ''toString'', ''valueOf'']),
      ToNumber = (\<lambda>v. case v of
        JStr s \<Rightarrow>
          if list_all is_digit s then Number (Finite (of_nat (digits_value s))) else NotGiven
      | JObj ps \<Rightarrow>
          if map_of ps ''valueOf'' = None \<and> map_of ps ''toString'' = None then Number NaN
          else NotGiven
      | JArr xs ps \<Rightarrow> if xs = [] \<and> ps = [] then Number (Finite 0) else NotGiven
      | _ \<Rightarrow> NotGiven)\<rparr>"

text \<open>Each file is listed with what parsing it gives (\<open>None\<close>: it does not parse); a
  write succeeds unless the location is in the directory \<^verbatim>\<open>/ro\<close>, and then lists the file
  with the data written. Names resolve against \<^verbatim>\<open>/cfg\<close>, an absolute one to itself.\<close>

definition alist_env :: "((string \<times> jsval option) list) env" where
  "alist_env =
     \<lparr>existsSync = (\<lambda>fs file. map_of fs file \<noteq> None),
      readJSONSync = (\<lambda>fs file. case map_of fs file of Some (Some v) \<Rightarrow> Some v | _ \<Rightarrow> None),
      writeJSONSync =
        (\<lambda>fs file d. if take 4 file = ''/ro/'' then (False, fs)
                       else (True, AList.update file (Some d) fs)),
      resolve = (\<lambda>name. if take 1 name = ''/'' then name else ''/cfg/'' @ name)\<rparr>"

definition empty_world :: "((string \<times> jsval option) list) world" where
  "empty_world = \<lparr>files = [], console = [], writes = []\<rparr>"


section \<open>Auxiliary facts\<close>

lemmas idx = array_index_def is_digit_def digits_value_def

lemmas run = factory_def new_StorageAdapter_def StorageAdapter_load_def alist_env_def
  empty_world_def new_Storage_def endsWith_def inherited_def node_def Let_def

lemma split_dots_nonempty: "split_dots p \<noteq> []"
  by (induction p) (auto split: list.splits)

lemma typeof_object_iff: "typeof v = ''object'' \<longleftrightarrow> v = JNull \<or> walkable v"
  by (cases v) auto

lemma container_walkable: "is_container v \<Longrightarrow> walkable v"
  by (cases v) auto

lemma inherited_not_container: "\<not> is_container (inherited E p k)"
  by (simp add: inherited_def)

lemma replace_child_read:
  assumes "get_prop E cur k = Inr next"
  shows "replace_child cur k next = cur"
proof (cases cur)
  case (JObj ps)
  show ?thesis
  proof (cases "map_of ps k")
    case None
    with JObj show ?thesis by simp
  next
    case (Some u)
    with JObj assms have "u = next" by simp
    with Some JObj show ?thesis by (simp add: update_triv)
  qed
next
  case (JArr xs ps)
  show ?thesis
  proof (cases "array_index k")
    case (Some i)
    with JArr assms show ?thesis by (auto split: if_splits)
  next
    case None
    show ?thesis
    proof (cases "k = ''length'' \<or> map_of ps k = None")
      case True
      with None JArr show ?thesis by auto
    next
      case False
      then obtain u where u: "map_of ps k = Some u" by auto
      with None False JArr assms have "u = next" by simp
      with u None False JArr show ?thesis by (simp add: update_triv)
    qed
  qed
qed simp_all

lemma get_loop_frame: "snd (get_loop E cur path ks final) = cur"
proof (induction ks arbitrary: cur path)
  case Nil
  show ?case by simp
next
  case (Cons k ks)
  show ?case
  proof (cases "get_prop E cur k")
    case (Inl e)
    then show ?thesis by simp
  next
    case (Inr nxt)
    show ?thesis
    proof (cases "typeof nxt = ''object''")
      case False
      with Inr show ?thesis by simp
    next
      case True
      have "snd (get_loop E nxt (path @ k) ks final) = nxt" by (rule Cons.IH)
      then obtain r where "get_loop E nxt (path @ k) ks final = (r, nxt)"
        by (cases "get_loop E nxt (path @ k) ks final") simp
      with Inr True replace_child_read[OF Inr] show ?thesis
        by simp
    qed
  qed
qed

lemma get_prop_Inl:
  "get_prop E v k = Inl e \<Longrightarrow>
   e = EngineTypeError \<and> (v = JNull \<or> v = JUndefined) \<or> e = Unsupported \<and> \<not> walkable v"
  by (cases v) (auto split: option.splits)

lemma get_prop_walkable: "walkable v \<Longrightarrow> \<exists>w. get_prop E v k = Inr w"
  by (cases v) (auto split: option.splits)

lemma get_loop_null: "fst (get_loop E JNull path ks final) = Inl EngineTypeError"
  by (cases ks) simp_all

lemma get_loop_step:
  "get_prop E cur k = Inr nxt \<Longrightarrow> typeof nxt = ''object'' \<Longrightarrow>
   fst (get_loop E cur path (k # ks) final) = fst (get_loop E nxt (path @ k) ks final)"
  by (simp split: prod.splits)

lemma walks_resolves:
  "walks E cur ks \<Longrightarrow> walkable cur \<Longrightarrow> \<exists>c. resolve_path E cur ks = Some c \<and> walkable c"
  by (induction ks arbitrary: cur) (auto split: sum.splits)

lemma get_loop_walks:
  "walks E cur ks \<Longrightarrow> resolve_path E cur ks = Some c \<Longrightarrow>
   fst (get_loop E cur path ks final) = get_prop E c final"
proof (induction ks arbitrary: cur path)
  case Nil
  then show ?case by simp
next
  case (Cons k ks)
  from Cons.prems obtain nxt where n: "get_prop E cur k = Inr nxt" "walkable nxt"
    "walks E nxt ks" "resolve_path E nxt ks = Some c"
    by (auto split: sum.splits)
  from n(2) have t: "typeof nxt = ''object''" by (simp add: typeof_object_iff)
  have "fst (get_loop E nxt (path @ k) ks final) = get_prop E c final"
    using n(3,4) by (rule Cons.IH)
  with get_loop_step[OF n(1) t] show ?case by simp
qed

lemma get_loop_error_at:
  "i < length ks \<Longrightarrow> walks E cur (take i ks) \<Longrightarrow>
   resolve_path E cur (take (Suc i) ks) = Some u \<Longrightarrow> typeof u \<noteq> ''object'' \<Longrightarrow>
   fst (get_loop E cur path ks final) =
     Inl (TypeError (''value at '' @ (path @ concat (take (Suc i) ks)) @ '' was not an object''))"
proof (induction ks arbitrary: cur path i)
  case Nil
  then show ?case by simp
next
  case (Cons k ks)
  show ?case
  proof (cases i)
    case 0
    with Cons.prems show ?thesis by (auto split: sum.splits)
  next
    case (Suc j)
    with Cons.prems obtain nxt where n: "get_prop E cur k = Inr nxt" "walkable nxt"
      "walks E nxt (take j ks)" "resolve_path E nxt (take (Suc j) ks) = Some u" "j < length ks"
      by (auto split: sum.splits)
    from n(2) have t: "typeof nxt = ''object''" by (simp add: typeof_object_iff)
    have "fst (get_loop E nxt (path @ k) ks final) =
      Inl (TypeError (''value at '' @ ((path @ k) @ concat (take (Suc j) ks)) @ '' was not an object''))"
      using n(5,3,4) Cons.prems(4) by (rule Cons.IH)
    with get_loop_step[OF n(1) t] Suc show ?thesis by simp
  qed
qed

lemma get_loop_error_only:
  "fst (get_loop E cur path ks final) = Inl (TypeError m) \<Longrightarrow>
   \<exists>i<length ks. walks E cur (take i ks) \<and>
     (\<exists>u. resolve_path E cur (take (Suc i) ks) = Some u \<and> typeof u \<noteq> ''object'') \<and>
     m = ''value at '' @ (path @ concat (take (Suc i) ks)) @ '' was not an object''"
proof (induction ks arbitrary: cur path)
  case Nil
  then show ?case by (auto dest: get_prop_Inl)
next
  case (Cons k ks)
  show ?case
  proof (cases "get_prop E cur k")
    case (Inl e)
    with Cons.prems show ?thesis by (auto dest: get_prop_Inl)
  next
    case (Inr nxt)
    show ?thesis
    proof (cases "typeof nxt = ''object''")
      case False
      with Inr Cons.prems have "m = ''value at '' @ (path @ concat (take (Suc 0) (k # ks))) @ '' was not an object''"
        by simp
      moreover have "walks E cur (take 0 (k # ks))" by simp
      moreover have "resolve_path E cur (take (Suc 0) (k # ks)) = Some nxt" using Inr by simp
      ultimately show ?thesis using False by blast
    next
      case True
      with Inr Cons.prems have e: "fst (get_loop E nxt (path @ k) ks final) = Inl (TypeError m)"
        by (simp only: get_loop_step)
      with get_loop_null have "nxt \<noteq> JNull" by auto
      with True have c: "walkable nxt" by (simp add: typeof_object_iff)
      from Cons.IH[OF e] obtain i u where i: "i < length ks" "walks E nxt (take i ks)"
        "resolve_path E nxt (take (Suc i) ks) = Some u" "typeof u \<noteq> ''object''"
        "m = ''value at '' @ ((path @ k) @ concat (take (Suc i) ks)) @ '' was not an object''"
        by blast
      have "Suc i < length (k # ks)" using i(1) by simp
      moreover have "walks E cur (take (Suc i) (k # ks))" using Inr c i(2) by simp
      moreover have "resolve_path E cur (take (Suc (Suc i)) (k # ks)) = Some u" using Inr i(3) by simp
      moreover have "m = ''value at '' @ (path @ concat (take (Suc (Suc i)) (k # ks))) @ '' was not an object''"
        using i(5) by simp
      ultimately show ?thesis using i(4) by blast
    qed
  qed
qed

lemma set_loop_truthy:
  "get_prop E cur k = Inr nxt \<Longrightarrow> truthy nxt \<Longrightarrow> set_loop E nxt ks final v = (r, nxt') \<Longrightarrow>
   set_loop E cur (k # ks) final v = (r, replace_child cur k nxt')"
  by simp

lemma set_loop_falsy:
  "get_prop E cur k = Inr nxt \<Longrightarrow> \<not> truthy nxt \<Longrightarrow> put_prop E cur k (JObj []) = Inr cur' \<Longrightarrow>
   set_loop E (JObj []) ks final v = (r, nxt') \<Longrightarrow>
   set_loop E cur (k # ks) final v = (r, replace_child cur' k nxt')"
  by simp

lemma falsy_not_proto: "get_prop E (JObj ps) k = Inr nxt \<Longrightarrow> \<not> truthy nxt \<Longrightarrow>
  k \<noteq> ''__proto__'' \<or> map_of ps k \<noteq> None"
  by (auto simp: inherited_def split: option.splits if_splits)

lemma set_loop_vivify:
  "vivifiable E (JObj ps) ks \<Longrightarrow> final \<noteq> ''__proto__'' \<Longrightarrow>
   set_loop E (JObj ps) ks final v = (None, JObj (vivify_assign ps ks final v))"
proof (induction ks arbitrary: ps)
  case Nil
  then show ?case by simp
next
  case (Cons k ks)
  obtain nxt where g: "get_prop E (JObj ps) k = Inr nxt" by simp
  show ?case
  proof (cases "truthy nxt")
    case False
    with Cons.prems(1) g have viv: "vivifiable E (JObj []) ks" by simp
    have fresh: "set_loop E (JObj []) ks final v = (None, JObj (vivify_assign [] ks final v))"
      using viv Cons.prems(2) by (rule Cons.IH)
    from falsy_not_proto[OF g False]
    have put: "put_prop E (JObj ps) k (JObj []) = Inr (JObj (AList.update k (JObj []) ps))"
      by auto
    have q: "(case map_of ps k of Some (JObj qs) \<Rightarrow> qs | _ \<Rightarrow> []) = []"
    proof (cases "map_of ps k")
      case None
      then show ?thesis by simp
    next
      case (Some u)
      with g have "nxt = u" by simp
      with False have "\<not> truthy u" by simp
      then have "(case Some u of Some (JObj qs) \<Rightarrow> qs | _ \<Rightarrow> []) = []"
        by (cases u) simp_all
      with Some show ?thesis by simp
    qed
    from set_loop_falsy[OF g False put fresh] q show ?thesis
      by (simp del: set_loop.simps add: update_conv')
  next
    case True
    with Cons.prems(1) g have m: "is_mapping nxt" and viv: "vivifiable E nxt ks" by simp_all
    from m obtain qs where u: "nxt = JObj qs" by (cases nxt) auto
    from g u have own: "map_of ps k = Some (JObj qs)"
      by (auto simp: inherited_def split: option.splits if_splits)
    have "set_loop E (JObj qs) ks final v = (None, JObj (vivify_assign qs ks final v))"
      using viv[unfolded u] Cons.prems(2) by (rule Cons.IH)
    from set_loop_truthy[OF g True, of ks final v, unfolded u, OF this] own
    show ?thesis by (simp del: set_loop.simps)
  qed
qed

lemma get_loop_vivify:
  "fst (get_loop E (JObj (vivify_assign ps ks final v)) path ks final) = Inr v"
proof (induction ks arbitrary: ps path)
  case Nil
  show ?case by (simp add: update_conv')
next
  case (Cons k ks)
  let ?qs = "case map_of ps k of Some (JObj qs) \<Rightarrow> qs | _ \<Rightarrow> []"
  let ?c = "JObj (vivify_assign ?qs ks final v)"
  have g: "get_prop E (JObj (vivify_assign ps (k # ks) final v)) k = Inr ?c"
    by (simp add: update_conv')
  have t: "typeof ?c = ''object''" by simp
  have "fst (get_loop E ?c (path @ k) ks final) = Inr v"
    by (rule Cons.IH)
  with get_loop_step[OF g t] show ?case by simp
qed

lemma split_dots_no_dot: "CHR ''.'' \<notin> set s \<Longrightarrow> split_dots s = [s]"
  by (induction s) auto

lemma split_dots_append_dot:
  "CHR ''.'' \<notin> set s \<Longrightarrow> split_dots (s @ CHR ''.'' # t) = s # split_dots t"
  by (induction s) auto

lemma split_join_dots:
  "segs \<noteq> [] \<Longrightarrow> \<forall>s\<in>set segs. CHR ''.'' \<notin> set s \<Longrightarrow> split_dots (join_dots segs) = segs"
proof (induction segs rule: join_dots.induct)
  case 1
  then show ?case by simp
next
  case (2 s)
  then show ?case by (simp add: split_dots_no_dot)
next
  case (3 s t ss)
  then show ?case by (simp add: split_dots_append_dot)
qed

lemma put_prop_Inl: "put_prop E cur k v = Inl e \<Longrightarrow> e \<noteq> TypeError m"
  by (cases cur) (auto simp: set_prototype_def split: option.splits if_splits conversion.splits)

lemma set_loop_no_TypeError: "fst (set_loop E cur ks final v) \<noteq> Some (TypeError m)"
proof (induction ks arbitrary: cur)
  case Nil
  show ?case
    by (cases "put_prop E cur final v") (auto dest: put_prop_Inl)
next
  case (Cons k ks)
  show ?case
  proof (cases "get_prop E cur k")
    case (Inl e)
    then show ?thesis by (auto dest: get_prop_Inl)
  next
    case (Inr nxt)
    show ?thesis
    proof (cases "truthy nxt")
      case True
      obtain r nxt' where s: "set_loop E nxt ks final v = (r, nxt')"
        by (cases "set_loop E nxt ks final v")
      with Cons.IH[of nxt] have "r \<noteq> Some (TypeError m)" by simp
      with set_loop_truthy[OF Inr True s] show ?thesis by (simp del: set_loop.simps)
    next
      case False
      obtain r nxt' where s: "set_loop E (JObj []) ks final v = (r, nxt')"
        by (cases "set_loop E (JObj []) ks final v")
      with Cons.IH[of "JObj []"] have r: "r \<noteq> Some (TypeError m)" by simp
      show ?thesis
      proof (cases "put_prop E cur k (JObj [])")
        case (Inl e)
        with Inr False put_prop_Inl[OF Inl, of m] show ?thesis by auto
      next
        case (Inr cur')
        from set_loop_falsy[OF \<open>get_prop E cur k = Inr nxt\<close> False Inr s] r
        show ?thesis by (simp del: set_loop.simps)
      qed
    qed
  qed
qed

lemma not_container_closed:
  "\<not> is_container v \<Longrightarrow> get_prop E v k = Inr nxt \<Longrightarrow> \<not> is_container nxt"
  by (cases v) (auto simp: inherited_def proto_prop_def split: option.splits if_splits)

lemma resolve_not_container:
  "\<not> is_container v \<Longrightarrow> resolve_path E v ks = Some c \<Longrightarrow> \<not> is_container c"
proof (induction ks arbitrary: v)
  case Nil
  then show ?case by simp
next
  case (Cons k ks)
  from Cons.prems(2) obtain nxt where g: "get_prop E v k = Inr nxt"
    and r: "resolve_path E nxt ks = Some c"
    by (auto split: sum.splits)
  from not_container_closed[OF Cons.prems(1) g] r show ?case by (rule Cons.IH)
qed

lemma get_prop_replace_child:
  assumes "get_prop E cur k = Inr nxt" and "is_container cur" and "is_container nxt"
  shows "get_prop E (replace_child cur k nxt') k = Inr nxt' \<and>
         is_container (replace_child cur k nxt')"
proof (cases cur)
  case (JObj ps)
  show ?thesis
  proof (cases "map_of ps k")
    case None
    with JObj assms(1) have "nxt = inherited E ObjectPrototype k" by simp
    with assms(3) inherited_not_container show ?thesis by simp
  next
    case (Some u)
    with JObj show ?thesis by (simp add: update_conv')
  qed
next
  case (JArr xs ps)
  show ?thesis
  proof (cases "array_index k")
    case (Some i)
    show ?thesis
    proof (cases "i < length xs")
      case True
      with Some JArr show ?thesis by simp
    next
      case False
      with Some JArr assms(1) have "nxt = JUndefined" by simp
      with assms(3) show ?thesis by simp
    qed
  next
    case None
    show ?thesis
    proof (cases "k = ''length''")
      case True
      with None JArr assms(1) have "nxt = JNum (Finite (of_nat (length xs)))" by simp
      with assms(3) show ?thesis by simp
    next
      case False
      show ?thesis
      proof (cases "map_of ps k")
        case n: None
        with None False JArr assms(1) have "nxt = inherited E ArrayPrototype k" by simp
        with assms(3) inherited_not_container show ?thesis by simp
      next
        case (Some u)
        with None False JArr show ?thesis by (simp add: update_conv')
      qed
    qed
  qed
qed (use assms(2) in simp_all)

lemma valid_length_Some: "valid_length n = Some m \<Longrightarrow> n = Finite (of_nat m)"
proof (cases n)
  case (Finite q)
  assume "valid_length n = Some m"
  with Finite have q: "0 \<le> q" "q = of_int \<lfloor>q\<rfloor>" "m = nat \<lfloor>q\<rfloor>"
    by (auto simp: valid_length_def split: if_splits)
  from q(1) have "0 \<le> \<lfloor>q\<rfloor>" by simp
  then have "of_nat (nat \<lfloor>q\<rfloor>) = (of_int \<lfloor>q\<rfloor> :: rat)" by simp
  with q(2,3) Finite show ?thesis by simp
qed (simp_all add: valid_length_def)

lemma length_resize: "length (resize m xs) = m"
  by (simp add: resize_def)

lemma stores_container: "stores c k v \<Longrightarrow> is_container c"
  by (cases c) simp_all

lemma put_prop_get_prop:
  assumes "stores c final v"
  shows "\<exists>c'. put_prop E c final v = Inr c' \<and> is_container c' \<and> get_prop E c' final = Inr v"
proof (cases c)
  case (JObj ps)
  show ?thesis
  proof (cases "final = ''__proto__'' \<and> map_of ps final = None")
    case True
    with JObj assms have "v = JProto ObjectPrototype" by auto
    with True JObj show ?thesis by (auto simp: set_prototype_def inherited_def update_conv')
  next
    case False
    with JObj show ?thesis by (auto simp: update_conv')
  qed
next
  case (JArr xs ps)
  show ?thesis
  proof (cases "array_index final")
    case (Some i)
    with JArr show ?thesis by (simp add: nth_append)
  next
    case None
    show ?thesis
    proof (cases "final = ''length''")
      case True
      with None JArr assms obtain n m where n: "v = JNum n" "valid_length n = Some m"
        by (cases v) auto
      from valid_length_Some[OF n(2)] n None True JArr show ?thesis
        by (simp add: length_resize)
    next
      case False
      show ?thesis
      proof (cases "final = ''__proto__'' \<and> map_of ps final = None")
        case True
        with None False JArr assms have "v = JProto ArrayPrototype" by auto
        with True None False JArr show ?thesis
          by (auto simp: set_prototype_def inherited_def update_conv')
      next
        case f: False
        with None False JArr show ?thesis by (auto simp: update_conv')
      qed
    qed
  qed
qed (use assms in simp_all)

lemma set_loop_after_get:
  "fst (get_loop E cur path ks final) = Inr w \<Longrightarrow> is_container cur \<Longrightarrow>
   resolve_path E cur ks = Some c \<Longrightarrow> stores c final v \<Longrightarrow>
   \<exists>cur'. set_loop E cur ks final v = (None, cur') \<and> is_container cur' \<and>
          fst (get_loop E cur' path' ks final) = Inr v"
proof (induction ks arbitrary: cur path path')
  case Nil
  then have "stores cur final v" by simp
  from put_prop_get_prop[OF this, of E] show ?case by auto
next
  case (Cons k ks)
  from Cons.prems(1) obtain nxt where g: "get_prop E cur k = Inr nxt"
    by (cases "get_prop E cur k") auto
  with Cons.prems(1) have t: "typeof nxt = ''object''"
    by (auto split: if_splits)
  from Cons.prems(1) have w: "fst (get_loop E nxt (path @ k) ks final) = Inr w"
    by (simp only: get_loop_step[OF g t])
  from Cons.prems(3) g have r: "resolve_path E nxt ks = Some c" by simp
  from Cons.prems(4) have "is_container c" by (rule stores_container)
  with resolve_not_container[OF _ r] have c: "is_container nxt" by blast
  then have tr: "truthy nxt" by (cases nxt) auto
  from Cons.IH[OF w c r Cons.prems(4), of "path' @ k"] obtain nxt' where
    n: "set_loop E nxt ks final v = (None, nxt')" "is_container nxt'"
       "fst (get_loop E nxt' (path' @ k) ks final) = Inr v"
    by blast
  let ?cur' = "replace_child cur k nxt'"
  have s: "set_loop E cur (k # ks) final v = (None, ?cur')"
    by (rule set_loop_truthy[OF g tr n(1)])
  from get_prop_replace_child[OF g Cons.prems(2) c, of nxt'] have
    g': "get_prop E ?cur' k = Inr nxt'" and c': "is_container ?cur'" by simp_all
  from n(2) have t': "typeof nxt' = ''object''" by (cases nxt') auto
  have "fst (get_loop E ?cur' path' (k # ks) final) = Inr v"
    using n(3) by (simp only: get_loop_step[OF g' t'])
  with s c' show ?case by blast
qed

lemma get_prop_primitive:
  "is_primitive cur \<Longrightarrow> \<not> inherited_name E k \<Longrightarrow>
   \<exists>nxt. get_prop E cur k = Inr nxt \<and> (is_primitive nxt \<or> nxt = JUndefined)"
  by (cases cur) (auto simp: inherited_def inherited_name_def split: option.splits)

lemma vivifiable_fresh:
  "\<forall>k\<in>set ks. \<not> inherited_name E k \<Longrightarrow> vivifiable E (JObj []) ks"
  by (induction ks) (auto simp: inherited_def inherited_name_def)

lemma set_loop_fresh:
  assumes "\<forall>k\<in>set ks. \<not> inherited_name E k" and "\<not> inherited_name E final"
  shows "fst (set_loop E (JObj []) ks final v) = None"
proof -
  from assms(2) have f: "final \<noteq> ''__proto__''" by (auto simp: inherited_name_def)
  from set_loop_vivify[OF vivifiable_fresh[OF assms(1)] f] show ?thesis by simp
qed

lemma set_loop_primitive:
  "is_primitive cur \<Longrightarrow> \<forall>k\<in>set ks. \<not> inherited_name E k \<Longrightarrow> \<not> inherited_name E final \<Longrightarrow>
   set_loop E cur ks final v = (None, cur)"
proof (induction ks arbitrary: cur)
  case Nil
  then show ?case by (cases cur) auto
next
  case (Cons k ks)
  from Cons.prems have nk: "\<not> inherited_name E k" and rest: "\<forall>k\<in>set ks. \<not> inherited_name E k"
    by simp_all
  from get_prop_primitive[OF Cons.prems(1) nk] obtain nxt where
    g: "get_prop E cur k = Inr nxt" and t: "is_primitive nxt \<or> nxt = JUndefined" by blast
  from Cons.prems(1) have rc: "replace_child cur k x = cur" for x by (cases cur) auto
  show ?case
  proof (cases "truthy nxt")
    case True
    with t have "is_primitive nxt" by auto
    then have "set_loop E nxt ks final v = (None, nxt)"
      using rest Cons.prems(3) by (rule Cons.IH)
    from set_loop_truthy[OF g True this] rc show ?thesis by simp
  next
    case False
    from Cons.prems(1) have p: "put_prop E cur k (JObj []) = Inr cur" by (cases cur) auto
    obtain r nxt' where s: "set_loop E (JObj []) ks final v = (r, nxt')"
      by (cases "set_loop E (JObj []) ks final v")
    with set_loop_fresh[OF rest Cons.prems(3), of v] have "r = None" by simp
    with set_loop_falsy[OF g False p s] rc show ?thesis by simp
  qed
qed

lemma set_loop_through_primitive:
  "i < length ks \<Longrightarrow> descends E cur (take i ks) \<Longrightarrow>
   resolve_path E cur (take (Suc i) ks) = Some u \<Longrightarrow> truthy u \<Longrightarrow> is_primitive u \<Longrightarrow>
   \<forall>k\<in>set (drop (Suc i) ks). \<not> inherited_name E k \<Longrightarrow> \<not> inherited_name E final \<Longrightarrow>
   set_loop E cur ks final v = (None, cur)"
proof (induction ks arbitrary: cur i)
  case Nil
  then show ?case by simp
next
  case (Cons k ks)
  show ?case
  proof (cases i)
    case 0
    with Cons.prems have g: "get_prop E cur k = Inr u" by (auto split: sum.splits)
    from 0 Cons.prems(6) have "\<forall>k\<in>set ks. \<not> inherited_name E k" by simp
    with Cons.prems(5) have s: "set_loop E u ks final v = (None, u)"
      using Cons.prems(7) by (rule set_loop_primitive)
    from set_loop_truthy[OF g Cons.prems(4) s] replace_child_read[OF g]
    show ?thesis by simp
  next
    case (Suc j)
    with Cons.prems obtain nxt where n: "get_prop E cur k = Inr nxt" "is_container nxt"
      "descends E nxt (take j ks)" "resolve_path E nxt (take (Suc j) ks) = Some u" "j < length ks"
      by (auto split: sum.splits)
    from n(2) have tr: "truthy nxt" by (cases nxt) auto
    from Suc Cons.prems(6) have "\<forall>k\<in>set (drop (Suc j) ks). \<not> inherited_name E k" by simp
    with n(5,3,4) Cons.prems(4,5) have s: "set_loop E nxt ks final v = (None, nxt)"
      using Cons.prems(7) by (rule Cons.IH)
    from set_loop_truthy[OF n(1) tr s] replace_child_read[OF n(1)]
    show ?thesis by simp
  qed
qed

lemma descends_walks: "descends E cur ks \<Longrightarrow> walks E cur ks"
  by (induction ks arbitrary: cur) (auto split: sum.splits dest: container_walkable)

lemma split_dots_hd: "hd (split_dots p) = takeWhile (\<lambda>c. c \<noteq> CHR ''.'') p"
  by (induction p) (auto split: list.splits simp: split_dots_nonempty)

lemma split_dots_dot: "CHR ''.'' \<in> set p \<Longrightarrow> butlast (split_dots p) \<noteq> []"
  by (induction p) (auto split: list.splits simp: split_dots_nonempty)

lemma save_loaded:
  "data a \<noteq> JNull \<Longrightarrow>
   StorageAdapter_save env w a =
     (None,
      w\<lparr>files := snd (writeJSONSync env (files w) (storageFile a) (data a)),
        writes := writes w @ [(storageFile a, data a)],
        console := console w @ failures env (files w) [a]\<rparr>)"
  by (simp add: StorageAdapter_save_def split: prod.splits)

lemma save_unloaded:
  "data a = JNull \<Longrightarrow>
   StorageAdapter_save env w a = (Some (Error ''Data has yet to be loaded''), w)"
  by (simp add: StorageAdapter_save_def)

lemma saveAll_loop_writes:
  assumes "\<forall>k\<in>set keys. \<exists>r. map_of (cache this) k = Some r \<and> r < length (adapters this)"
  shows "writes (snd (saveAll_loop env w this keys)) =
           writes w @ map (\<lambda>a. (storageFile a, data a))
                        (takeWhile (\<lambda>a. data a \<noteq> JNull) (cached this keys)) \<and>
         console (snd (saveAll_loop env w this keys)) =
           console w @ failures env (files w)
                        (takeWhile (\<lambda>a. data a \<noteq> JNull) (cached this keys)) \<and>
         fst (saveAll_loop env w this keys) =
           (if \<forall>a\<in>set (cached this keys). data a \<noteq> JNull then None
            else Some (Error ''Data has yet to be loaded''))"
  using assms
proof (induction keys arbitrary: w)
  case Nil
  show ?case by simp
next
  case (Cons k keys)
  from Cons.prems obtain r where r: "map_of (cache this) k = Some r" "r < length (adapters this)"
    by auto
  let ?a = "adapters this ! r"
  show ?case
  proof (cases "data ?a = JNull")
    case True
    with r save_unloaded[OF True, of env w] show ?thesis by simp
  next
    case False
    let ?w' = "w\<lparr>files := snd (writeJSONSync env (files w) (storageFile ?a) (data ?a)),
        writes := writes w @ [(storageFile ?a, data ?a)],
        console := console w @ failures env (files w) [?a]\<rparr>"
    have s: "StorageAdapter_save env w ?a = (None, ?w')"
      by (rule save_loaded[OF False])
    have ih: "writes (snd (saveAll_loop env ?w' this keys)) =
           writes ?w' @ map (\<lambda>a. (storageFile a, data a))
                        (takeWhile (\<lambda>a. data a \<noteq> JNull) (cached this keys)) \<and>
         console (snd (saveAll_loop env ?w' this keys)) =
           console ?w' @ failures env (files ?w')
                        (takeWhile (\<lambda>a. data a \<noteq> JNull) (cached this keys)) \<and>
         fst (saveAll_loop env ?w' this keys) =
           (if \<forall>a\<in>set (cached this keys). data a \<noteq> JNull then None
            else Some (Error ''Data has yet to be loaded''))"
      using Cons.prems by (intro Cons.IH) simp
    from r s have "saveAll_loop env w this (k # keys) = saveAll_loop env ?w' this keys" by simp
    with ih r False show ?thesis by simp
  qed
qed

lemma set_for_in_keys: "set (for_in_keys ps) = fst ` set ps"
  by (auto simp: for_in_keys_def)

lemma for_in_keys_names:
  "\<forall>k\<in>fst ` set ps. array_index k = None \<Longrightarrow> for_in_keys ps = map fst ps"
  by (simp add: for_in_keys_def filter_empty_conv)


section \<open>The path accessors, verified\<close>




text \<open>
  C2, as the program has it. For a mapping and a path with segments \<open>s\<^sub>1 \<dots> s\<^sub>n\<close>, \<open>get\<close>
  raises the error \<^verbatim>\<open>value at s1...si was not an object\<close> (the segments run together)
  exactly when \<open>s\<^sub>1 \<dots> s\<^bsub>i-1\<^esub>\<close> resolve to values that \<open>get\<close> walks through, those
  whose \<^verbatim>\<open>typeof\<close> is \<^verbatim>\<open>'object'\<close> and that are not \<^verbatim>\<open>null\<close> (mappings, sequences, and
  the built-in prototypes that \<^verbatim>\<open>__proto__\<close> leads to), and \<open>s\<^sub>i\<close>, \<open>i < n\<close>, resolves
  to a value whose \<^verbatim>\<open>typeof\<close> is not \<^verbatim>\<open>'object'\<close>: a primitive, a function or
  \<^verbatim>\<open>undefined\<close>. When every segment before the last resolves to a value that \<open>get\<close>
  walks through, \<open>get\<close> returns what property lookup on the last of them gives for the
  final segment (the value of the key; without the key what the prototype chain holds
  under the name, and \<^verbatim>\<open>undefined\<close> when that is nothing), raises nothing and leaves the
  object as it was. A sequence on the way is walked through by index. What happens at
  \<^verbatim>\<open>null\<close> is no part of the statement.
\<close>

theorem get_path_traversal:
  assumes "is_mapping object"
  shows "(fst (get_path E object (JStr p)) = Inl (TypeError m) \<longleftrightarrow>
            (\<exists>i<length (butlast (split_dots p)).
               walks E object (take i (butlast (split_dots p))) \<and>
               (\<exists>u. resolve_path E object (take (Suc i) (butlast (split_dots p))) = Some u \<and>
                    typeof u \<noteq> ''object'') \<and>
               m = ''value at '' @ concat (take (Suc i) (butlast (split_dots p))) @ '' was not an object''))
         \<and> (walks E object (butlast (split_dots p)) \<longrightarrow>
              (\<exists>c w. resolve_path E object (butlast (split_dots p)) = Some c \<and> walkable c \<and>
                     get_prop E c (last (split_dots p)) = Inr w \<and>
                     get_path E object (JStr p) = (Inr w, object)))"
proof -
  let ?ks = "butlast (split_dots p)" and ?final = "last (split_dots p)"
  from assms have obj: "typeof object = ''object''" and cont: "walkable object"
    by (cases object; simp)+
  have gp: "get_path E object (JStr p) = get_loop E object [] ?ks ?final"
    using obj by (simp add: get_path_def)
  have "fst (get_loop E object [] ?ks ?final) = Inl (TypeError m)"
    if "i < length ?ks" "walks E object (take i ?ks)"
       "resolve_path E object (take (Suc i) ?ks) = Some u" "typeof u \<noteq> ''object''"
       "m = ''value at '' @ concat (take (Suc i) ?ks) @ '' was not an object''" for i u
    using get_loop_error_at[OF that(1-4), of "[]" ?final] that(5) by simp
  moreover have "\<exists>i<length ?ks. walks E object (take i ?ks) \<and>
       (\<exists>u. resolve_path E object (take (Suc i) ?ks) = Some u \<and> typeof u \<noteq> ''object'') \<and>
       m = ''value at '' @ concat (take (Suc i) ?ks) @ '' was not an object''"
    if "fst (get_loop E object [] ?ks ?final) = Inl (TypeError m)"
    using get_loop_error_only[OF that] by simp
  ultimately have A: "fst (get_path E object (JStr p)) = Inl (TypeError m) \<longleftrightarrow>
            (\<exists>i<length ?ks. walks E object (take i ?ks) \<and>
               (\<exists>u. resolve_path E object (take (Suc i) ?ks) = Some u \<and> typeof u \<noteq> ''object'') \<and>
               m = ''value at '' @ concat (take (Suc i) ?ks) @ '' was not an object'')"
    unfolding gp by blast
  have B: "\<exists>c w. resolve_path E object ?ks = Some c \<and> walkable c \<and>
                     get_prop E c ?final = Inr w \<and> get_path E object (JStr p) = (Inr w, object)"
    if d: "walks E object ?ks"
  proof -
    from walks_resolves[OF d cont] obtain c where c: "resolve_path E object ?ks = Some c" "walkable c"
      by blast
    from get_prop_walkable[OF c(2)] obtain w where w: "get_prop E c ?final = Inr w" by blast
    have "fst (get_path E object (JStr p)) = Inr w"
      using get_loop_walks[OF d c(1)] w gp by simp
    moreover have "snd (get_path E object (JStr p)) = object" by (simp add: gp get_loop_frame)
    ultimately have "get_path E object (JStr p) = (Inr w, object)" by (simp add: prod_eq_iff)
    with c w show ?thesis by blast
  qed
  from A B show ?thesis by blast
qed

theorem get_path_traversal_witness:
  "is_mapping (JObj [(''x'', JObj [(''y'', JNum (Finite 1))])]) \<and>
   fst (get_path node (JObj [(''x'', JObj [(''y'', JNum (Finite 1))])]) (JStr ''x.y.z'')) =
     Inl (TypeError ''value at xy was not an object'') \<and>
   get_path node (JObj [(''x'', JObj [(''y'', JNum (Finite 1))])]) (JStr ''x.w'') =
     (Inr JUndefined, JObj [(''x'', JObj [(''y'', JNum (Finite 1))])])"
proof -
  let ?d = "JObj [(''x'', JObj [(''y'', JNum (Finite 1))])]"
  have h: "is_mapping ?d" by simp
  have "Suc 0 < length (butlast (split_dots ''x.y.z'')) \<and>
        walks node ?d (take (Suc 0) (butlast (split_dots ''x.y.z''))) \<and>
        (\<exists>u. resolve_path node ?d (take (Suc (Suc 0)) (butlast (split_dots ''x.y.z''))) = Some u \<and>
             typeof u \<noteq> ''object'') \<and>
        ''value at xy was not an object'' =
          ''value at '' @ concat (take (Suc (Suc 0)) (butlast (split_dots ''x.y.z''))) @ '' was not an object''"
    by simp
  then have a: "fst (get_path node ?d (JStr ''x.y.z'')) = Inl (TypeError ''value at xy was not an object'')"
    using get_path_traversal[OF h, of node "''x.y.z''" "''value at xy was not an object''"] by blast
  have "walks node ?d (butlast (split_dots ''x.w''))" by simp
  then obtain c w where "resolve_path node ?d (butlast (split_dots ''x.w'')) = Some c"
    "get_prop node c (last (split_dots ''x.w'')) = Inr w" "get_path node ?d (JStr ''x.w'') = (Inr w, ?d)"
    using get_path_traversal[OF h, of node "''x.w''" "[]"] by blast
  then have b: "get_path node ?d (JStr ''x.w'') = (Inr JUndefined, ?d)"
    by (auto simp: inherited_def node_def)
  from h a b show ?thesis by blast
qed

text \<open>
  The claim as worded, the descriptive error exactly when a segment resolves to something
  that is no mapping, fails at a sequence: the segment \<^verbatim>\<open>a\<close> resolves to an array and
  \<open>get\<close> raises nothing. It fails at \<^verbatim>\<open>null\<close> as well, whose \<^verbatim>\<open>typeof\<close> is
  \<^verbatim>\<open>'object'\<close>: the error is the engine's, at the next read, and names no prefix.
\<close>

theorem get_path_sequence_counterexample:
  "resolve_path node (JObj [(''a'', JArr [JNum (Finite 7)] [])]) [''a''] =
     Some (JArr [JNum (Finite 7)] []) \<and>
   \<not> is_mapping (JArr [JNum (Finite 7)] []) \<and>
   get_path node (JObj [(''a'', JArr [JNum (Finite 7)] [])]) (JStr ''a.0'') =
     (Inr (JNum (Finite 7)), JObj [(''a'', JArr [JNum (Finite 7)] [])]) \<and>
   resolve_path node (JObj [(''a'', JNull)]) [''a''] = Some JNull \<and>
   get_path node (JObj [(''a'', JNull)]) (JStr ''a.b'') = (Inl EngineTypeError, JObj [(''a'', JNull)])"
  by (simp add: get_path_def array_index_def is_digit_def digits_value_def)

text \<open>
  C8, as the program has it. On a mapping, \<open>set\<close> and \<open>get\<close> raise the type error
  \<^verbatim>\<open>keyPath must be a string\<close> when the path is not a string, and leave the mapping as it
  was; on a string neither raises that error, whatever the string. The empty string is
  the path of the single key \<^verbatim>\<open>''\<close>: \<open>set\<close> assigns under that key and \<open>get\<close> reads it. For
  segments without dots, empty ones among them, the path joining them splits into exactly
  these segments, and where the write can go down (as in C1) \<open>set\<close> raises nothing and
  \<open>get\<close> returns the value written.
\<close>

theorem keyPath_check:
  "(typeof keyPath \<noteq> ''string'' \<longrightarrow>
      set_path E (JObj ps) keyPath v = (Some (TypeError ''keyPath must be a string''), JObj ps) \<and>
      get_path E (JObj ps) keyPath = (Inl (TypeError ''keyPath must be a string''), JObj ps)) \<and>
   (typeof keyPath = ''string'' \<longrightarrow>
      fst (set_path E (JObj ps) keyPath v) \<noteq> Some (TypeError ''keyPath must be a string'') \<and>
      fst (get_path E (JObj ps) keyPath) \<noteq> Inl (TypeError ''keyPath must be a string'')) \<and>
   set_path E (JObj ps) (JStr []) v = (None, JObj (AList.update [] v ps)) \<and>
   fst (get_path E (JObj (AList.update [] v ps)) (JStr [])) = Inr v \<and>
   (segs \<noteq> [] \<and> (\<forall>s\<in>set segs. CHR ''.'' \<notin> set s) \<longrightarrow>
      split_dots (join_dots segs) = segs \<and>
      (vivifiable E (JObj ps) (butlast segs) \<and> last segs \<noteq> ''__proto__'' \<longrightarrow>
         fst (set_path E (JObj ps) (JStr (join_dots segs)) v) = None \<and>
         fst (get_path E (snd (set_path E (JObj ps) (JStr (join_dots segs)) v)) (JStr (join_dots segs))) = Inr v))"
proof -
  have A: "set_path E (JObj ps) keyPath v = (Some (TypeError ''keyPath must be a string''), JObj ps) \<and>
      get_path E (JObj ps) keyPath = (Inl (TypeError ''keyPath must be a string''), JObj ps)"
    if "typeof keyPath \<noteq> ''string''"
    using that by (cases keyPath) (simp_all add: set_path_def get_path_def)
  have B: "fst (set_path E (JObj ps) keyPath v) \<noteq> Some (TypeError ''keyPath must be a string'') \<and>
      fst (get_path E (JObj ps) keyPath) \<noteq> Inl (TypeError ''keyPath must be a string'')"
    if "typeof keyPath = ''string''"
  proof -
    from that obtain p where p: "keyPath = JStr p" by (cases keyPath) auto
    have 1: "fst (set_path E (JObj ps) keyPath v) \<noteq> Some (TypeError ''keyPath must be a string'')"
      using set_loop_no_TypeError by (simp add: p set_path_def)
    have 2: "fst (get_path E (JObj ps) keyPath) \<noteq> Inl (TypeError ''keyPath must be a string'')"
    proof
      assume "fst (get_path E (JObj ps) keyPath) = Inl (TypeError ''keyPath must be a string'')"
      then have "fst (get_loop E (JObj ps) [] (butlast (split_dots p)) (last (split_dots p))) =
        Inl (TypeError ''keyPath must be a string'')" by (simp add: p get_path_def)
      from get_loop_error_only[OF this] show False by auto
    qed
    from 1 2 show ?thesis by blast
  qed
  have C: "set_path E (JObj ps) (JStr []) v = (None, JObj (AList.update [] v ps))"
    by (simp add: set_path_def)
  have D: "fst (get_path E (JObj (AList.update [] v ps)) (JStr [])) = Inr v"
    by (simp add: get_path_def update_conv')
  have F: "split_dots (join_dots segs) = segs \<and>
      (vivifiable E (JObj ps) (butlast segs) \<and> last segs \<noteq> ''__proto__'' \<longrightarrow>
         fst (set_path E (JObj ps) (JStr (join_dots segs)) v) = None \<and>
         fst (get_path E (snd (set_path E (JObj ps) (JStr (join_dots segs)) v)) (JStr (join_dots segs))) = Inr v)"
    if "segs \<noteq> [] \<and> (\<forall>s\<in>set segs. CHR ''.'' \<notin> set s)"
  proof -
    from that have s: "split_dots (join_dots segs) = segs" by (simp add: split_join_dots)
    have "fst (set_path E (JObj ps) (JStr (join_dots segs)) v) = None \<and>
         fst (get_path E (snd (set_path E (JObj ps) (JStr (join_dots segs)) v)) (JStr (join_dots segs))) = Inr v"
      if "vivifiable E (JObj ps) (butlast segs)" "last segs \<noteq> ''__proto__''"
      using set_loop_vivify[OF that, of v] get_loop_vivify[of E ps "butlast segs" "last segs" v "[]"]
      by (simp add: set_path_def get_path_def s)
    with s show ?thesis by blast
  qed
  from A B C D F show ?thesis by blast
qed

theorem keyPath_check_witness:
  "set_path node (JObj []) (JNum (Finite 3)) JNull = (Some (TypeError ''keyPath must be a string''), JObj []) \<and>
   get_path node (JObj []) (JNum (Finite 3)) = (Inl (TypeError ''keyPath must be a string''), JObj []) \<and>
   set_path node (JObj []) (JStr '''') (JBool True) = (None, JObj [('''', JBool True)]) \<and>
   split_dots ''.a..b.'' = ['''', ''a'', '''', ''b'', ''''] \<and>
   set_path node (JObj []) (JStr ''.a..b.'') (JBool True) =
     (None, JObj [('''', JObj [(''a'', JObj [('''', JObj [(''b'', JObj [('''', JBool True)])])])])]) \<and>
   fst (get_path node (JObj [('''', JObj [(''a'', JObj [('''', JObj [(''b'', JObj [('''', JBool True)])])])])])
          (JStr ''.a..b.'')) = Inr (JBool True)"
proof -
  let ?segs = "['''', ''a'', '''', ''b'', '''']"
  note t = keyPath_check[of "JNum (Finite 3)" node "[]" JNull ?segs]
  note u = keyPath_check[of "JStr ''''" node "[]" "JBool True" ?segs]
  have h1: "typeof (JNum (Finite 3)) \<noteq> ''string''" by simp
  have h2: "?segs \<noteq> [] \<and> (\<forall>s\<in>set ?segs. CHR ''.'' \<notin> set s)" by simp
  have h3: "vivifiable node (JObj []) (butlast ?segs) \<and> last ?segs \<noteq> ''__proto__''"
    by (simp add: inherited_def node_def)
  have j: "join_dots ?segs = ''.a..b.''" by simp
  from t h1 have a: "set_path node (JObj []) (JNum (Finite 3)) JNull = (Some (TypeError ''keyPath must be a string''), JObj [])"
    and b: "get_path node (JObj []) (JNum (Finite 3)) = (Inl (TypeError ''keyPath must be a string''), JObj [])"
    by blast+
  from u have c: "set_path node (JObj []) (JStr '''') (JBool True) = (None, JObj [('''', JBool True)])"
    by simp
  from u h2 h3 have d: "split_dots (join_dots ?segs) = ?segs"
    and e: "fst (get_path node (snd (set_path node (JObj []) (JStr (join_dots ?segs)) (JBool True))) (JStr (join_dots ?segs))) = Inr (JBool True)"
    by blast+
  have f: "set_path node (JObj []) (JStr ''.a..b.'') (JBool True) =
     (None, JObj [('''', JObj [(''a'', JObj [('''', JObj [(''b'', JObj [('''', JBool True)])])])])])"
    by (simp add: set_path_def inherited_def node_def)
  from e have g: "fst (get_path node (JObj [('''', JObj [(''a'', JObj [('''', JObj [(''b'', JObj [('''', JBool True)])])])])])
          (JStr ''.a..b.'')) = Inr (JBool True)"
    by (simp only: j f snd_conv)
  from d have d': "split_dots ''.a..b.'' = ?segs" by (simp only: j)
  from a b c d' f g show ?thesis by blast
qed

text \<open>
  The claim as worded asks for a type error on the empty string; the program reads and
  writes the key \<^verbatim>\<open>''\<close>.
\<close>

theorem keyPath_empty_counterexample:
  "get_path node (JObj [('''', JNum (Finite 1))]) (JStr '''') =
     (Inr (JNum (Finite 1)), JObj [('''', JNum (Finite 1))]) \<and>
   set_path node (JObj []) (JStr '''') (JNum (Finite 1)) = (None, JObj [('''', JNum (Finite 1))])"
  by (simp add: get_path_def set_path_def)

text \<open>
  C9. For every object and every path, \<open>get\<close> hands the object back as it received it,
  whatever the outcome: a value, \<^verbatim>\<open>undefined\<close> for a missing final key, or an error. The
  walk goes down by reference like that of \<open>set\<close>, and nothing on the way is created or
  removed.
\<close>

theorem get_path_frame: "snd (get_path E object keyPath) = object"
  by (cases keyPath) (simp_all add: get_path_def get_loop_frame)

theorem get_path_frame_witness:
  "get_path node (JObj [(''x'', JObj [(''y'', JNum (Finite 1))])]) (JStr ''x.y'') =
     (Inr (JNum (Finite 1)), JObj [(''x'', JObj [(''y'', JNum (Finite 1))])]) \<and>
   get_path node (JObj [(''x'', JObj [(''y'', JNum (Finite 1))])]) (JStr ''x.w'') =
     (Inr JUndefined, JObj [(''x'', JObj [(''y'', JNum (Finite 1))])]) \<and>
   get_path node (JObj [(''x'', JObj [(''y'', JNum (Finite 1))])]) (JStr ''q.w'') =
     (Inl (TypeError ''value at q was not an object''), JObj [(''x'', JObj [(''y'', JNum (Finite 1))])])"
proof -
  let ?d = "JObj [(''x'', JObj [(''y'', JNum (Finite 1))])]"
  have "fst (get_path node ?d (JStr ''x.y'')) = Inr (JNum (Finite 1))"
    and "fst (get_path node ?d (JStr ''x.w'')) = Inr JUndefined"
    and "fst (get_path node ?d (JStr ''q.w'')) = Inl (TypeError ''value at q was not an object'')"
    by (simp_all add: get_path_def inherited_def node_def)
  moreover have "snd (get_path node ?d (JStr ''x.y'')) = ?d"
    and "snd (get_path node ?d (JStr ''x.w'')) = ?d"
    and "snd (get_path node ?d (JStr ''q.w'')) = ?d"
    by (rule get_path_frame)+
  ultimately show ?thesis by (simp add: prod_eq_iff)
qed


section \<open>StorageAdapter, verified\<close>

text \<open>
  C3, as the program has it. Let \<open>get(path)\<close> on an adapter succeed with the value \<open>w\<close>,
  and let the final segment be a key under which the container that holds it, a mapping
  or a sequence of the document, stores the value \<open>v\<close>: any key but the \<^verbatim>\<open>length\<close> of a
  sequence, which stores nothing but a length, and \<^verbatim>\<open>__proto__\<close> where it is not an own
  key. Then \<open>set(path, v)\<close> returns \<open>w\<close>, keeps the storage location, and a \<open>get(path)\<close>
  right after it returns \<open>v\<close>.
\<close>

theorem StorageAdapter_set_then_get:
  assumes "fst (StorageAdapter_get E this (JStr p)) = Inr w"
    and "resolve_path E (data this) (butlast (split_dots p)) = Some c"
    and "stores c (last (split_dots p)) v"
  shows "\<exists>this'. StorageAdapter_set E this (JStr p) v = (Inr w, this') \<and>
                 storageFile this' = storageFile this \<and>
                 fst (StorageAdapter_get E this' (JStr p)) = Inr v"
proof -
  let ?ks = "butlast (split_dots p)" and ?final = "last (split_dots p)"
  from assms(1) have loaded: "data this \<noteq> JNull"
    by (auto simp: StorageAdapter_get_def split: if_splits)
  with assms(1) have obj: "typeof (data this) = ''object''"
    by (auto simp: StorageAdapter_get_def get_path_def split: if_splits prod.splits)
  from assms(3) have "is_container c" by (rule stores_container)
  with resolve_not_container[OF _ assms(2)] have cont: "is_container (data this)" by blast
  have gp: "get_path E (data this) (JStr p) = get_loop E (data this) [] ?ks ?final"
    using obj by (simp add: get_path_def)
  have fr: "snd (get_loop E (data this) [] ?ks ?final) = data this" by (rule get_loop_frame)
  from assms(1) loaded have gw: "fst (get_loop E (data this) [] ?ks ?final) = Inr w"
    by (simp add: StorageAdapter_get_def gp split: prod.splits)
  with fr have "get_loop E (data this) [] ?ks ?final = (Inr w, data this)"
    by (simp add: prod_eq_iff)
  then have g: "StorageAdapter_get E this (JStr p) = (Inr w, this)"
    using loaded by (simp add: StorageAdapter_get_def gp)
  from set_loop_after_get[OF gw cont assms(2,3), of "[]"] obtain d where
    d: "set_loop E (data this) ?ks ?final v = (None, d)" "is_container d"
       "fst (get_loop E d [] ?ks ?final) = Inr v"
    by blast
  have sp: "set_path E (data this) (JStr p) v = (None, d)"
    using obj d(1) by (simp add: set_path_def)
  have 1: "StorageAdapter_set E this (JStr p) v = (Inr w, this\<lparr>data := d\<rparr>)"
    using loaded g sp by (simp add: StorageAdapter_set_def)
  from d(2) have "d \<noteq> JNull" "typeof d = ''object''" by (cases d; simp)+
  moreover obtain r d' where "get_loop E d [] ?ks ?final = (r, d')"
    by (cases "get_loop E d [] ?ks ?final")
  ultimately have 2: "fst (StorageAdapter_get E (this\<lparr>data := d\<rparr>) (JStr p)) = Inr v"
    using d(3) by (simp add: StorageAdapter_get_def get_path_def)
  from 1 2 show ?thesis by simp
qed

theorem StorageAdapter_set_then_get_witness:
  "fst (StorageAdapter_get node \<lparr>storageFile = ''/cfg/d.json'',
          data = JObj [(''a'', JArr [JObj [(''b'', JNum (Finite 1))]] [])]\<rparr> (JStr ''a.0.b'')) =
     Inr (JNum (Finite 1)) \<and>
   StorageAdapter_set node \<lparr>storageFile = ''/cfg/d.json'',
          data = JObj [(''a'', JArr [JObj [(''b'', JNum (Finite 1))]] [])]\<rparr> (JStr ''a.0.b'') (JStr ''v'') =
     (Inr (JNum (Finite 1)),
      \<lparr>storageFile = ''/cfg/d.json'', data = JObj [(''a'', JArr [JObj [(''b'', JStr ''v'')]] [])]\<rparr>) \<and>
   fst (StorageAdapter_get node \<lparr>storageFile = ''/cfg/d.json'',
          data = JObj [(''a'', JArr [JObj [(''b'', JStr ''v'')]] [])]\<rparr> (JStr ''a.0.b'')) = Inr (JStr ''v'') \<and>
   fst (StorageAdapter_get node \<lparr>storageFile = ''/cfg/d.json'',
          data = JObj [(''a'', JArr [JNum (Finite 1)] [])]\<rparr> (JStr ''a.tag'')) = Inr JUndefined \<and>
   StorageAdapter_set node \<lparr>storageFile = ''/cfg/d.json'',
          data = JObj [(''a'', JArr [JNum (Finite 1)] [])]\<rparr> (JStr ''a.tag'') (JStr ''v'') =
     (Inr JUndefined,
      \<lparr>storageFile = ''/cfg/d.json'', data = JObj [(''a'', JArr [JNum (Finite 1)] [(''tag'', JStr ''v'')])]\<rparr>)"
proof -
  let ?a = "\<lparr>storageFile = ''/cfg/d.json'', data = JObj [(''a'', JArr [JObj [(''b'', JNum (Finite 1))]] [])]\<rparr>"
  let ?b = "\<lparr>storageFile = ''/cfg/d.json'', data = JObj [(''a'', JArr [JObj [(''b'', JStr ''v'')]] [])]\<rparr>"
  let ?c = "\<lparr>storageFile = ''/cfg/d.json'', data = JObj [(''a'', JArr [JNum (Finite 1)] [])]\<rparr>"
  let ?d = "\<lparr>storageFile = ''/cfg/d.json'', data = JObj [(''a'', JArr [JNum (Finite 1)] [(''tag'', JStr ''v'')])]\<rparr>"
  have h1: "fst (StorageAdapter_get node ?a (JStr ''a.0.b'')) = Inr (JNum (Finite 1))"
    by (simp add: StorageAdapter_get_def get_path_def idx)
  have h2: "resolve_path node (data ?a) (butlast (split_dots ''a.0.b'')) = Some (JObj [(''b'', JNum (Finite 1))])"
    by (simp add: idx)
  have h3: "stores (JObj [(''b'', JNum (Finite 1))]) (last (split_dots ''a.0.b'')) (JStr ''v'')"
    by simp
  from StorageAdapter_set_then_get[OF h1 h2 h3] obtain this' where
    t: "StorageAdapter_set node ?a (JStr ''a.0.b'') (JStr ''v'') = (Inr (JNum (Finite 1)), this')"
       "fst (StorageAdapter_get node this' (JStr ''a.0.b'')) = Inr (JStr ''v'')"
    by blast
  have "StorageAdapter_set node ?a (JStr ''a.0.b'') (JStr ''v'') = (Inr (JNum (Finite 1)), ?b)"
    by (simp add: StorageAdapter_set_def StorageAdapter_get_def get_path_def set_path_def idx)
  with t have b: "this' = ?b" by simp
  have k1: "fst (StorageAdapter_get node ?c (JStr ''a.tag'')) = Inr JUndefined"
    by (simp add: StorageAdapter_get_def get_path_def idx inherited_def node_def)
  have k2: "resolve_path node (data ?c) (butlast (split_dots ''a.tag'')) = Some (JArr [JNum (Finite 1)] [])"
    by simp
  have k3: "stores (JArr [JNum (Finite 1)] []) (last (split_dots ''a.tag'')) (JStr ''v'')"
    by (simp add: idx)
  from StorageAdapter_set_then_get[OF k1 k2 k3] obtain this'' where
    u: "StorageAdapter_set node ?c (JStr ''a.tag'') (JStr ''v'') = (Inr JUndefined, this'')"
    by blast
  have "snd (StorageAdapter_set node ?c (JStr ''a.tag'') (JStr ''v'')) = ?d"
    by (simp add: StorageAdapter_set_def StorageAdapter_get_def get_path_def set_path_def idx
        inherited_def node_def)
  with u have d: "this'' = ?d" by simp
  from t b h1 k1 u d show ?thesis by simp
qed

text \<open>
  The claim as worded, for every path on which \<open>get\<close> succeeds, fails at the \<^verbatim>\<open>length\<close> of
  a sequence: the read returns \<^verbatim>\<open>3\<close>, and the assignment of \<^verbatim>\<open>-1\<close> raises
  \<^verbatim>\<open>RangeError\<close>, so \<open>set\<close> returns nothing; the assignment of the string \<^verbatim>\<open>'2'\<close>
  shortens the sequence, and the read after it returns the number \<^verbatim>\<open>2\<close>. At \<^verbatim>\<open>__proto__\<close>
  the read returns \<^verbatim>\<open>Object.prototype\<close>, the assignment of \<^verbatim>\<open>5\<close> is ignored, and the read
  after it returns \<^verbatim>\<open>Object.prototype\<close> again.
\<close>

theorem StorageAdapter_set_length_counterexample:
  "fst (StorageAdapter_get node \<lparr>storageFile = ''/cfg/d.json'',
          data = JObj [(''a'', JArr [JNum (Finite 1), JNum (Finite 2), JNum (Finite 3)] [])]\<rparr>
        (JStr ''a.length'')) = Inr (JNum (Finite 3)) \<and>
   fst (StorageAdapter_set node \<lparr>storageFile = ''/cfg/d.json'',
          data = JObj [(''a'', JArr [JNum (Finite 1), JNum (Finite 2), JNum (Finite 3)] [])]\<rparr>
        (JStr ''a.length'') (JNum (Finite (- 1)))) = Inl (RangeError ''Invalid array length'') \<and>
   StorageAdapter_set node \<lparr>storageFile = ''/cfg/d.json'',
          data = JObj [(''a'', JArr [JNum (Finite 1), JNum (Finite 2), JNum (Finite 3)] [])]\<rparr>
        (JStr ''a.length'') (JStr ''2'') =
     (Inr (JNum (Finite 3)),
      \<lparr>storageFile = ''/cfg/d.json'', data = JObj [(''a'', JArr [JNum (Finite 1), JNum (Finite 2)] [])]\<rparr>) \<and>
   fst (StorageAdapter_get node \<lparr>storageFile = ''/cfg/d.json'',
          data = JObj [(''a'', JArr [JNum (Finite 1), JNum (Finite 2)] [])]\<rparr>
        (JStr ''a.length'')) = Inr (JNum (Finite 2)) \<and>
   StorageAdapter_set node \<lparr>storageFile = ''/cfg/d.json'', data = JObj []\<rparr>
        (JStr ''__proto__'') (JNum (Finite 5)) =
     (Inr (JProto ObjectPrototype), \<lparr>storageFile = ''/cfg/d.json'', data = JObj []\<rparr>) \<and>
   fst (StorageAdapter_get node \<lparr>storageFile = ''/cfg/d.json'', data = JObj []\<rparr>
        (JStr ''__proto__'')) = Inr (JProto ObjectPrototype)"
  by (simp add: StorageAdapter_get_def StorageAdapter_set_def get_path_def set_path_def
      array_index_def is_digit_def digits_value_def valid_length_def resize_def node_def
      inherited_def set_prototype_def)

text \<open>
  C10, as the program has it. Let the document of an adapter be a container and let a
  segment before the last resolve, through containers, to a truthy value whose \<^verbatim>\<open>typeof\<close>
  is not \<^verbatim>\<open>'object'\<close>: a number other than zero, a string that is not empty, \<^verbatim>\<open>true\<close>, or
  a built-in function. Then \<open>set(path, v)\<close> on the adapter raises the error of the read,
  \<^verbatim>\<open>value at ... was not an object\<close>, and the adapter is as before. Where the value is a
  primitive and no later segment is a name inherited from a built-in prototype, \<open>set\<close> of
  the path accessors on the same document raises nothing (and changes nothing).
\<close>

theorem StorageAdapter_set_through_primitive:
  assumes "is_container (data this)"
    and "i < length (butlast (split_dots p))"
    and "descends E (data this) (take i (butlast (split_dots p)))"
    and "resolve_path E (data this) (take (Suc i) (butlast (split_dots p))) = Some u"
    and "truthy u" and "typeof u \<noteq> ''object''"
  shows "StorageAdapter_set E this (JStr p) v =
           (Inl (TypeError (''value at '' @ concat (take (Suc i) (butlast (split_dots p)))
                              @ '' was not an object'')), this) \<and>
         (is_primitive u \<and> (\<forall>k\<in>set (drop (Suc i) (split_dots p)). \<not> inherited_name E k) \<longrightarrow>
            set_path E (data this) (JStr p) v = (None, data this))"
proof -
  let ?ks = "butlast (split_dots p)" and ?final = "last (split_dots p)"
  let ?e = "TypeError (''value at '' @ concat (take (Suc i) ?ks) @ '' was not an object'')"
  from assms(1) have loaded: "data this \<noteq> JNull" and obj: "typeof (data this) = ''object''"
    by (cases "data this"; simp)+
  have "fst (get_loop E (data this) [] ?ks ?final) = Inl ?e"
    using get_loop_error_at[OF assms(2) descends_walks[OF assms(3)] assms(4,6), of "[]" ?final]
    by simp
  moreover have "snd (get_loop E (data this) [] ?ks ?final) = data this" by (rule get_loop_frame)
  ultimately have "get_loop E (data this) [] ?ks ?final = (Inl ?e, data this)"
    by (simp add: prod_eq_iff)
  then have "StorageAdapter_get E this (JStr p) = (Inl ?e, this)"
    using loaded obj by (simp add: StorageAdapter_get_def get_path_def)
  then have 1: "StorageAdapter_set E this (JStr p) v = (Inl ?e, this)"
    using loaded by (simp add: StorageAdapter_set_def)
  have 2: "set_path E (data this) (JStr p) v = (None, data this)"
    if prim: "is_primitive u" and names: "\<forall>k\<in>set (drop (Suc i) (split_dots p)). \<not> inherited_name E k"
  proof -
    have sp: "split_dots p = ?ks @ [?final]" by (simp add: split_dots_nonempty)
    from assms(2) have "drop (Suc i) (?ks @ [?final]) = drop (Suc i) ?ks @ [?final]" by simp
    with sp have "drop (Suc i) (split_dots p) = drop (Suc i) ?ks @ [?final]" by simp
    with names have n1: "\<forall>k\<in>set (drop (Suc i) ?ks). \<not> inherited_name E k"
      and n2: "\<not> inherited_name E ?final" by simp_all
    from set_loop_through_primitive[OF assms(2-5) prim n1 n2] obj show ?thesis
      by (simp add: set_path_def)
  qed
  from 1 2 show ?thesis by blast
qed

theorem StorageAdapter_set_through_primitive_witness:
  "is_container (JObj [(''a'', JNum (Finite 5))]) \<and>
   StorageAdapter_set node \<lparr>storageFile = ''/cfg/d.json'', data = JObj [(''a'', JNum (Finite 5))]\<rparr>
       (JStr ''a.b.c'') (JBool True) =
     (Inl (TypeError ''value at a was not an object''),
      \<lparr>storageFile = ''/cfg/d.json'', data = JObj [(''a'', JNum (Finite 5))]\<rparr>) \<and>
   set_path node (JObj [(''a'', JNum (Finite 5))]) (JStr ''a.b.c'') (JBool True) =
     (None, JObj [(''a'', JNum (Finite 5))])"
proof -
  let ?a = "\<lparr>storageFile = ''/cfg/d.json'', data = JObj [(''a'', JNum (Finite 5))]\<rparr>"
  have h1: "is_container (data ?a)" by simp
  have h2: "0 < length (butlast (split_dots ''a.b.c''))" by simp
  have h3: "descends node (data ?a) (take 0 (butlast (split_dots ''a.b.c'')))" by simp
  have h4: "resolve_path node (data ?a) (take (Suc 0) (butlast (split_dots ''a.b.c''))) = Some (JNum (Finite 5))"
    by simp
  have h5: "truthy (JNum (Finite 5))" and h6: "typeof (JNum (Finite 5)) \<noteq> ''object''" by simp_all
  have h7: "is_primitive (JNum (Finite 5)) \<and>
            (\<forall>k\<in>set (drop (Suc 0) (split_dots ''a.b.c'')). \<not> inherited_name node k)"
    by (simp add: inherited_name_def node_def)
  from StorageAdapter_set_through_primitive[OF h1 h2 h3 h4 h5 h6, of "JBool True"] h1 h7
  show ?thesis by simp
qed

text \<open>
  The claim as worded, for every truthy value that is no mapping, fails at a sequence: the
  segment \<^verbatim>\<open>a\<close> resolves to an array, and \<open>set\<close> on the adapter returns the old value and
  writes. And \<open>set\<close> of the path accessors does raise on the document \<^verbatim>\<open>{a: 5}\<close> of the
  theorem when the later segments are \<^verbatim>\<open>__proto__\<close>: they lead from the number to
  \<^verbatim>\<open>Object.prototype\<close>, which refuses a new prototype.
\<close>

theorem StorageAdapter_set_sequence_counterexample:
  "resolve_path node (JObj [(''a'', JArr [JNum (Finite 1)] [])]) [''a''] =
     Some (JArr [JNum (Finite 1)] []) \<and>
   truthy (JArr [JNum (Finite 1)] []) \<and> \<not> is_mapping (JArr [JNum (Finite 1)] []) \<and>
   StorageAdapter_set node \<lparr>storageFile = ''/cfg/d.json'', data = JObj [(''a'', JArr [JNum (Finite 1)] [])]\<rparr>
       (JStr ''a.0'') (JNum (Finite 2)) =
     (Inr (JNum (Finite 1)),
      \<lparr>storageFile = ''/cfg/d.json'', data = JObj [(''a'', JArr [JNum (Finite 2)] [])]\<rparr>) \<and>
   set_path node (JObj [(''a'', JNum (Finite 5))]) (JStr ''a.__proto__.__proto__.__proto__'') (JObj []) =
     (Some EngineTypeError, JObj [(''a'', JNum (Finite 5))])"
  by (simp add: StorageAdapter_get_def StorageAdapter_set_def get_path_def set_path_def
      array_index_def is_digit_def digits_value_def inherited_def proto_prop_def)

text \<open>
  C4, as the program has it. Where no document exists at the storage location, \<open>load\<close>
  sets the data to an empty mapping, prints nothing and touches no file. A \<open>get(path)\<close>
  after it returns \<^verbatim>\<open>undefined\<close> when the path has no dot and is no name that a mapping
  inherits from \<^verbatim>\<open>Object.prototype\<close>; when the path has a dot and its first segment
  \<open>s\<close> is not \<^verbatim>\<open>__proto__\<close>, \<open>get\<close> raises \<^verbatim>\<open>value at s was not an object\<close>. In both
  cases the adapter is as before, so every later \<open>get\<close> does the same.
\<close>

theorem StorageAdapter_load_missing:
  assumes "\<not> existsSync env (files w) (storageFile this)"
  shows "StorageAdapter_load env w this = (w, this\<lparr>data := JObj []\<rparr>) \<and>
         (CHR ''.'' \<notin> set p \<and> p \<noteq> ''__proto__'' \<and> p \<notin> set (members E ObjectPrototype) \<longrightarrow>
            StorageAdapter_get E (this\<lparr>data := JObj []\<rparr>) (JStr p) =
              (Inr JUndefined, this\<lparr>data := JObj []\<rparr>)) \<and>
         (CHR ''.'' \<in> set p \<and> takeWhile (\<lambda>c. c \<noteq> CHR ''.'') p \<noteq> ''__proto__'' \<longrightarrow>
            StorageAdapter_get E (this\<lparr>data := JObj []\<rparr>) (JStr p) =
              (Inl (TypeError (''value at '' @ takeWhile (\<lambda>c. c \<noteq> CHR ''.'') p @ '' was not an object'')),
               this\<lparr>data := JObj []\<rparr>))"
proof -
  let ?s = "takeWhile (\<lambda>c. c \<noteq> CHR ''.'') p"
  have 1: "StorageAdapter_load env w this = (w, this\<lparr>data := JObj []\<rparr>)"
    using assms by (simp add: StorageAdapter_load_def)
  have 2: "get_loop E (JObj []) [] (butlast (split_dots p)) (last (split_dots p)) =
      (Inr JUndefined, JObj [])"
    if "CHR ''.'' \<notin> set p \<and> p \<noteq> ''__proto__'' \<and> p \<notin> set (members E ObjectPrototype)"
    using that by (simp add: split_dots_no_dot inherited_def)
  have 3: "get_loop E (JObj []) [] (butlast (split_dots p)) (last (split_dots p)) =
      (Inl (TypeError (''value at '' @ ?s @ '' was not an object'')), JObj [])"
    if dot: "CHR ''.'' \<in> set p \<and> ?s \<noteq> ''__proto__''"
  proof -
    from dot split_dots_dot obtain k ks where ks: "butlast (split_dots p) = k # ks"
      by (cases "butlast (split_dots p)") auto
    then have "k = hd (split_dots p)"
      by (cases "split_dots p") (auto split: if_splits)
    then have k: "k = ?s" by (simp add: split_dots_hd)
    with dot have "typeof (inherited E ObjectPrototype k) \<noteq> ''object''"
      by (simp add: inherited_def)
    with ks k show ?thesis by simp
  qed
  from 1 2 3 show ?thesis by (simp add: StorageAdapter_get_def get_path_def)
qed

theorem StorageAdapter_load_missing_witness:
  "\<not> existsSync alist_env (files empty_world) ''/cfg/d.json'' \<and>
   new_StorageAdapter alist_env empty_world ''/cfg/d.json'' =
     (empty_world, \<lparr>storageFile = ''/cfg/d.json'', data = JObj []\<rparr>) \<and>
   StorageAdapter_get node \<lparr>storageFile = ''/cfg/d.json'', data = JObj []\<rparr> (JStr ''any'') =
     (Inr JUndefined, \<lparr>storageFile = ''/cfg/d.json'', data = JObj []\<rparr>) \<and>
   StorageAdapter_get node \<lparr>storageFile = ''/cfg/d.json'', data = JObj []\<rparr> (JStr ''toString.x'') =
     (Inl (TypeError ''value at toString was not an object''),
      \<lparr>storageFile = ''/cfg/d.json'', data = JObj []\<rparr>)"
proof -
  let ?a = "\<lparr>storageFile = ''/cfg/d.json'', data = JNull\<rparr>"
  have h: "\<not> existsSync alist_env (files empty_world) (storageFile ?a)"
    by (simp add: alist_env_def empty_world_def)
  have n: "CHR ''.'' \<notin> set ''any'' \<and> ''any'' \<noteq> ''__proto__'' \<and> ''any'' \<notin> set (members node ObjectPrototype)"
    by (simp add: node_def)
  have d: "CHR ''.'' \<in> set ''toString.x'' \<and> takeWhile (\<lambda>c. c \<noteq> CHR ''.'') ''toString.x'' \<noteq> ''__proto__''"
    by simp
  from StorageAdapter_load_missing[OF h, of "''any''" node] h n
  have 1: "\<not> existsSync alist_env (files empty_world) ''/cfg/d.json'' \<and>
     new_StorageAdapter alist_env empty_world ''/cfg/d.json'' =
       (empty_world, \<lparr>storageFile = ''/cfg/d.json'', data = JObj []\<rparr>) \<and>
     StorageAdapter_get node \<lparr>storageFile = ''/cfg/d.json'', data = JObj []\<rparr> (JStr ''any'') =
       (Inr JUndefined, \<lparr>storageFile = ''/cfg/d.json'', data = JObj []\<rparr>)"
    by (simp add: new_StorageAdapter_def)
  from StorageAdapter_load_missing[OF h, of "''toString.x''" node] d
  have 2: "StorageAdapter_get node \<lparr>storageFile = ''/cfg/d.json'', data = JObj []\<rparr> (JStr ''toString.x'') =
     (Inl (TypeError ''value at toString was not an object''),
      \<lparr>storageFile = ''/cfg/d.json'', data = JObj []\<rparr>)"
    by simp
  from 1 2 show ?thesis by blast
qed

text \<open>
  The claim as worded, \<^verbatim>\<open>undefined\<close> for every path, fails at the path \<^verbatim>\<open>any.path\<close> of the
  specification's own example.
\<close>

theorem StorageAdapter_get_missing_counterexample:
  "new_StorageAdapter alist_env empty_world ''/cfg/d.json'' =
     (empty_world, \<lparr>storageFile = ''/cfg/d.json'', data = JObj []\<rparr>) \<and>
   fst (StorageAdapter_get node \<lparr>storageFile = ''/cfg/d.json'', data = JObj []\<rparr> (JStr ''any.path'')) =
     Inl (TypeError ''value at any was not an object'')"
  by (simp add: new_StorageAdapter_def StorageAdapter_load_def alist_env_def empty_world_def
      StorageAdapter_get_def get_path_def inherited_def node_def)

text \<open>
  C5. Where a document exists and reading it fails, \<open>load\<close> prints the failure and leaves
  the adapter with \<^verbatim>\<open>data === null\<close>. In that state \<open>get\<close>, \<open>set\<close> and \<open>save\<close>, with any
  arguments, raise \<^verbatim>\<open>Data has yet to be loaded\<close> and change neither the adapter nor the
  world, so they go on raising until a \<open>load\<close> sets the data; none of them sees an empty
  mapping.
\<close>

theorem StorageAdapter_load_corrupt:
  assumes "existsSync env (files w) (storageFile this)"
    and "readJSONSync env (files w) (storageFile this) = None"
  shows "StorageAdapter_load env w this =
           (w\<lparr>console := console w @ [''Failed to load '' @ storageFile this @ ''!'']\<rparr>,
            this\<lparr>data := JNull\<rparr>) \<and>
         StorageAdapter_get E (this\<lparr>data := JNull\<rparr>) key =
           (Inl (Error ''Data has yet to be loaded''), this\<lparr>data := JNull\<rparr>) \<and>
         StorageAdapter_set E (this\<lparr>data := JNull\<rparr>) key v =
           (Inl (Error ''Data has yet to be loaded''), this\<lparr>data := JNull\<rparr>) \<and>
         StorageAdapter_save env w' (this\<lparr>data := JNull\<rparr>) =
           (Some (Error ''Data has yet to be loaded''), w') \<and>
         (existsSync env (files w') (storageFile this) \<and>
          readJSONSync env (files w') (storageFile this) = Some d \<longrightarrow>
            StorageAdapter_load env w' (this\<lparr>data := JNull\<rparr>) = (w', this\<lparr>data := d\<rparr>))"
  using assms
  by (simp add: StorageAdapter_load_def StorageAdapter_get_def StorageAdapter_set_def
      StorageAdapter_save_def)

theorem StorageAdapter_load_corrupt_witness:
  "existsSync alist_env [(''/cfg/d.json'', None)] ''/cfg/d.json'' \<and>
   readJSONSync alist_env [(''/cfg/d.json'', None)] ''/cfg/d.json'' = None \<and>
   snd (new_StorageAdapter alist_env \<lparr>files = [(''/cfg/d.json'', None)], console = [], writes = []\<rparr>
          ''/cfg/d.json'') = \<lparr>storageFile = ''/cfg/d.json'', data = JNull\<rparr> \<and>
   fst (StorageAdapter_get node \<lparr>storageFile = ''/cfg/d.json'', data = JNull\<rparr> (JStr ''a'')) =
     Inl (Error ''Data has yet to be loaded'') \<and>
   fst (StorageAdapter_set node \<lparr>storageFile = ''/cfg/d.json'', data = JNull\<rparr> (JStr ''a'') JNull) =
     Inl (Error ''Data has yet to be loaded'') \<and>
   fst (StorageAdapter_save alist_env \<lparr>files = [(''/cfg/d.json'', None)], console = [], writes = []\<rparr>
          \<lparr>storageFile = ''/cfg/d.json'', data = JNull\<rparr>) = Some (Error ''Data has yet to be loaded'')"
proof -
  let ?w = "\<lparr>files = [(''/cfg/d.json'', None)], console = [], writes = []\<rparr> :: ((string \<times> jsval option) list) world"
  let ?a = "\<lparr>storageFile = ''/cfg/d.json'', data = JNull\<rparr>"
  have h1: "existsSync alist_env (files ?w) (storageFile ?a)" by (simp add: alist_env_def)
  have h2: "readJSONSync alist_env (files ?w) (storageFile ?a) = None" by (simp add: alist_env_def)
  from StorageAdapter_load_corrupt[OF h1 h2, of node "JStr ''a''" JNull ?w JNull] h1 h2
  show ?thesis by (simp add: new_StorageAdapter_def)
qed


section \<open>Storage, verified\<close>

text \<open>
  C6 asks that the first call of the factory with a name creates an instance at the
  location the name resolves to, and that every later call with the name returns that
  instance. The program does not do so for a name that the cache, an object literal,
  inherits from \<^verbatim>\<open>Object.prototype\<close>: on a new \<^verbatim>\<open>Storage\<close>, the call with the name
  \<^verbatim>\<open>constructor\<close> finds the built-in function \<^verbatim>\<open>Object\<close> in \<^verbatim>\<open>cache[storageFile]\<close>, returns
  it, creates no instance and leaves the cache empty; with \<^verbatim>\<open>__proto__\<close> it returns
  \<^verbatim>\<open>Object.prototype\<close>. With a name such as \<^verbatim>\<open>foo\<close> the same call creates the instance
  at \<^verbatim>\<open>/cfg/foo.json\<close> and enters it in the cache.
\<close>

theorem factory_inherited_name:
  "factory node alist_env (empty_world, new_Storage) ''constructor'' =
     (Builtin (JBuiltin ObjectPrototype ''constructor''), empty_world, new_Storage) \<and>
   factory node alist_env (empty_world, new_Storage) ''__proto__'' =
     (Builtin (JProto ObjectPrototype), empty_world, new_Storage) \<and>
   factory node alist_env (empty_world, new_Storage) ''foo'' =
     (Instance 0, empty_world,
      \<lparr>adapters = [\<lparr>storageFile = ''/cfg/foo.json'', data = JObj []\<rparr>], cache = [(''foo'', 0)]\<rparr>)"
  by (simp add: run)

text \<open>
  C7, as the program has it. Let every reference in the cache be to an instance of the
  store. \<open>saveAll\<close> visits the keys of the cache in the order of \<^verbatim>\<open>for ... in\<close>: keys that
  are array indices first, in ascending order, then the others in the order of creation,
  which is the order of creation when no key is an array index. It calls
  \<^verbatim>\<open>writeJSONSync\<close> once for each instance, in that order, whether or not a write fails,
  and prints one line \<^verbatim>\<open>Failed to save data to ...!\<close> for each write that fails, as far
  as the first instance whose data is \<^verbatim>\<open>null\<close>; at that one \<open>save\<close> raises
  \<^verbatim>\<open>Data has yet to be loaded\<close>, which ends \<open>saveAll\<close>. Without such an instance
  \<open>saveAll\<close> raises nothing.
\<close>

theorem saveAll_saves:
  assumes "\<forall>k\<in>fst ` set (cache this). \<exists>r. map_of (cache this) k = Some r \<and> r < length (adapters this)"
  shows "writes (snd (saveAll env (w, this))) =
           writes w @ map (\<lambda>a. (storageFile a, data a))
             (takeWhile (\<lambda>a. data a \<noteq> JNull) (cached this (for_in_keys (cache this)))) \<and>
         console (snd (saveAll env (w, this))) =
           console w @ failures env (files w)
             (takeWhile (\<lambda>a. data a \<noteq> JNull) (cached this (for_in_keys (cache this)))) \<and>
         fst (saveAll env (w, this)) =
           (if \<forall>a\<in>set (cached this (for_in_keys (cache this))). data a \<noteq> JNull then None
            else Some (Error ''Data has yet to be loaded'')) \<and>
         ((\<forall>k\<in>fst ` set (cache this). array_index k = None) \<longrightarrow>
            for_in_keys (cache this) = map fst (cache this))"
proof -
  from assms have "\<forall>k\<in>set (for_in_keys (cache this)).
      \<exists>r. map_of (cache this) k = Some r \<and> r < length (adapters this)"
    by (simp add: set_for_in_keys)
  from saveAll_loop_writes[OF this, of env w] for_in_keys_names[of "cache this"]
  show ?thesis by (simp add: saveAll_def)
qed

theorem saveAll_saves_witness:
  "snd (factory_all node alist_env (empty_world, new_Storage) [''/ro/x'', ''b'', ''1'']) =
     \<lparr>adapters = [\<lparr>storageFile = ''/ro/x.json'', data = JObj []\<rparr>,
                  \<lparr>storageFile = ''/cfg/b.json'', data = JObj []\<rparr>,
                  \<lparr>storageFile = ''/cfg/1.json'', data = JObj []\<rparr>],
       cache = [(''/ro/x'', 0), (''b'', 1), (''1'', 2)]\<rparr> \<and>
   fst (saveAll alist_env (factory_all node alist_env (empty_world, new_Storage) [''/ro/x'', ''b'', ''1''])) = None \<and>
   writes (snd (saveAll alist_env (factory_all node alist_env (empty_world, new_Storage) [''/ro/x'', ''b'', ''1'']))) =
     [(''/cfg/1.json'', JObj []), (''/ro/x.json'', JObj []), (''/cfg/b.json'', JObj [])] \<and>
   console (snd (saveAll alist_env (factory_all node alist_env (empty_world, new_Storage) [''/ro/x'', ''b'', ''1'']))) =
     [''Failed to save data to /ro/x.json!''] \<and>
   for_in_keys (cache (snd (factory_all node alist_env (empty_world, new_Storage) [''b'', ''a'']))) =
     [''b'', ''a'']"
proof -
  let ?s = "\<lparr>adapters = [\<lparr>storageFile = ''/ro/x.json'', data = JObj []\<rparr>,
                  \<lparr>storageFile = ''/cfg/b.json'', data = JObj []\<rparr>,
                  \<lparr>storageFile = ''/cfg/1.json'', data = JObj []\<rparr>],
       cache = [(''/ro/x'', 0), (''b'', 1), (''1'', 2)]\<rparr>"
  have st: "factory_all node alist_env (empty_world, new_Storage) [''/ro/x'', ''b'', ''1''] = (empty_world, ?s)"
    by (simp add: run)
  have h: "\<forall>k\<in>fst ` set (cache ?s). \<exists>r. map_of (cache ?s) k = Some r \<and> r < length (adapters ?s)"
    by simp
  from saveAll_saves[OF h, of alist_env empty_world]
  have 1: "fst (saveAll alist_env (empty_world, ?s)) = None \<and>
      writes (snd (saveAll alist_env (empty_world, ?s))) =
        [(''/cfg/1.json'', JObj []), (''/ro/x.json'', JObj []), (''/cfg/b.json'', JObj [])] \<and>
      console (snd (saveAll alist_env (empty_world, ?s))) = [''Failed to save data to /ro/x.json!'']"
    by (simp add: for_in_keys_def idx empty_world_def alist_env_def)
  let ?t = "\<lparr>adapters = [\<lparr>storageFile = ''/cfg/b.json'', data = JObj []\<rparr>,
                  \<lparr>storageFile = ''/cfg/a.json'', data = JObj []\<rparr>],
       cache = [(''b'', 0), (''a'', 1)]\<rparr>"
  have st2: "factory_all node alist_env (empty_world, new_Storage) [''b'', ''a''] = (empty_world, ?t)"
    by (simp add: run)
  have h2: "\<forall>k\<in>fst ` set (cache ?t). \<exists>r. map_of (cache ?t) k = Some r \<and> r < length (adapters ?t)"
    by simp
  have n2: "\<forall>k\<in>fst ` set (cache ?t). array_index k = None" by (simp add: idx)
  from saveAll_saves[OF h2, of alist_env empty_world] n2
  have 2: "for_in_keys (cache ?t) = [''b'', ''a'']" by simp
  from 1 2 show ?thesis unfolding st st2 by simp
qed

text \<open>
  The claim as worded fails twice. With the document of \<^verbatim>\<open>a\<close> unreadable, the \<open>save\<close>
  of \<^verbatim>\<open>a\<close> raises and \<^verbatim>\<open>b\<close> is never written. And the instances created for \<^verbatim>\<open>b\<close>
  and then \<^verbatim>\<open>1\<close> are saved in the order \<^verbatim>\<open>1\<close>, \<^verbatim>\<open>b\<close>.
\<close>

theorem saveAll_unloaded_counterexample:
  "fst (saveAll alist_env
          (factory_all node alist_env
             (\<lparr>files = [(''/cfg/a.json'', None)], console = [], writes = []\<rparr>, new_Storage)
             [''a'', ''b''])) = Some (Error ''Data has yet to be loaded'') \<and>
   writes (snd (saveAll alist_env
          (factory_all node alist_env
             (\<lparr>files = [(''/cfg/a.json'', None)], console = [], writes = []\<rparr>, new_Storage)
             [''a'', ''b'']))) = [] \<and>
   writes (snd (saveAll alist_env (factory_all node alist_env (empty_world, new_Storage) [''b'', ''1'']))) =
     [(''/cfg/1.json'', JObj []), (''/cfg/b.json'', JObj [])]"
  by (simp add: run saveAll_def for_in_keys_def idx StorageAdapter_save_def)

end
